theory Spec2Isabelle
  imports Complex_Main "HOL-Library.Word"
begin

unbundle bit_operations_syntax

section \<open>Numbers\<close>

text \<open>
  A JavaScript number is modelled as a real: the rounding of IEEE doubles and of the
  32-bit floats of a \<open>Float32Array\<close> is not part of the model. Where the exact
  arithmetic of the source can leave the numbers, the value is a \<open>num\<close>, with
  \<open>None\<close> for NaN. The only such places are the quotients of the source: the base
  coordinates \<open>x / (sampleW - 1)\<close> and the differences of \<open>curl\<close> over \<open>2 * epsilon\<close> are
  \<open>0/0\<close> when the divisor vanishes. The aspect \<open>w / h\<close> of an image of height zero would
  be an infinity for \<open>w > 0\<close>; a decoded image has no such height, and \<open>js_div\<close> gives
  \<open>None\<close> there too. NaN is absorbing for \<open>+\<close>, \<open>-\<close>, \<open>*\<close>, \<open>Math.min\<close> and
  \<open>Math.max\<close>.
\<close>

type_synonym num = "real option"

definition js_div :: "real \<Rightarrow> real \<Rightarrow> num" where
  "js_div a b = (if b = 0 then None else Some (a / b))"

definition num_lift2 :: "(real \<Rightarrow> real \<Rightarrow> real) \<Rightarrow> num \<Rightarrow> num \<Rightarrow> num" where
  "num_lift2 f a b = (case (a, b) of (Some p, Some q) \<Rightarrow> Some (f p q) | _ \<Rightarrow> None)"

abbreviation num_add :: "num \<Rightarrow> num \<Rightarrow> num" where
  "num_add \<equiv> num_lift2 (+)"

abbreviation num_sub :: "num \<Rightarrow> num \<Rightarrow> num" where
  "num_sub \<equiv> num_lift2 (-)"

abbreviation num_mul :: "num \<Rightarrow> num \<Rightarrow> num" where
  "num_mul \<equiv> num_lift2 (*)"

section \<open>Noise generators (utils/noise)\<close>

subsection \<open>class PerlinNoise\<close>

text \<open>
  The only field of the class is the permutation table. The seed is a natural number:
  the program constructs its generators with the seed 42, and the default is 0.
\<close>

record PerlinNoise =
  permutation :: "nat list"

text \<open>One call of the closure returned by \<open>seededRandom\<close>: the next state.
  The value the call returns is \<open>state / 233280\<close>.\<close>

definition random_next :: "nat \<Rightarrow> nat" where
  "random_next state = (state * 9301 + 49297) mod 233280"

text \<open>The shuffle loop \<open>for (let i = 255; i > 0; i--)\<close>, started at \<open>i\<close>, threading
  the state of the random generator.\<close>

fun shuffle :: "nat \<Rightarrow> nat \<Rightarrow> nat list \<Rightarrow> nat list" where
  "shuffle 0 state perm = perm"
| "shuffle (Suc i) state perm =
     (let state' = random_next state;
          j = nat \<lfloor>real state' / 233280 * real (Suc i + 1)\<rfloor>
      in shuffle i state' (perm[Suc i := perm ! j, j := perm ! Suc i]))"

definition PerlinNoise_new :: "nat \<Rightarrow> PerlinNoise" where
  "PerlinNoise_new seed =
     (let perm = shuffle 255 seed [0..<256]
      in \<lparr>permutation = perm @ perm\<rparr>)"

definition fade :: "real \<Rightarrow> real" where
  "fade t = t * t * t * (t * (t * 6 - 15) + 10)"

definition lerp :: "real \<Rightarrow> real \<Rightarrow> real \<Rightarrow> real" where
  "lerp t a b = a + t * (b - a)"

text \<open>A table read yields \<open>None\<close> for \<open>undefined\<close> (an index outside the table, or an
  index that is itself NaN); \<open>undefined + n\<close> is NaN; \<open>undefined & 15\<close> is 0.\<close>

definition grad :: "nat option \<Rightarrow> real \<Rightarrow> real \<Rightarrow> real \<Rightarrow> real" where
  "grad hash x y z =
     (let h = (case hash of None \<Rightarrow> 0 | Some k \<Rightarrow> k AND 15);
          u = (if h < 8 then x else y);
          v = (if h < 4 then y else if h = 12 \<or> h = 14 then x else z)
      in (if h AND 1 = 0 then u else - u) + (if h AND 2 = 0 then v else - v))"

definition perm_at :: "PerlinNoise \<Rightarrow> nat option \<Rightarrow> nat option" where
  "perm_at this i =
     (case i of
        None \<Rightarrow> None
      | Some k \<Rightarrow> if k < length (permutation this) then Some (permutation this ! k) else None)"

definition idx_plus :: "nat option \<Rightarrow> nat \<Rightarrow> nat option" where
  "idx_plus a n = map_option (\<lambda>k. k + n) a"

text \<open>\<open>Math.floor(x) & 255\<close>\<close>

definition lattice :: "real \<Rightarrow> nat" where
  "lattice x = nat (\<lfloor>x\<rfloor> AND 255)"

text \<open>The six index constants of \<open>noise\<close>, as functions of the lattice coordinates.\<close>

definition idx_A :: "PerlinNoise \<Rightarrow> nat \<Rightarrow> nat \<Rightarrow> nat option" where
  "idx_A this X Y = idx_plus (perm_at this (Some X)) Y"

definition idx_B :: "PerlinNoise \<Rightarrow> nat \<Rightarrow> nat \<Rightarrow> nat option" where
  "idx_B this X Y = idx_plus (perm_at this (Some (X + 1))) Y"

definition idx_AA :: "PerlinNoise \<Rightarrow> nat \<Rightarrow> nat \<Rightarrow> nat \<Rightarrow> nat option" where
  "idx_AA this X Y Z = idx_plus (perm_at this (idx_A this X Y)) Z"

definition idx_AB :: "PerlinNoise \<Rightarrow> nat \<Rightarrow> nat \<Rightarrow> nat \<Rightarrow> nat option" where
  "idx_AB this X Y Z = idx_plus (perm_at this (idx_plus (idx_A this X Y) 1)) Z"

definition idx_BA :: "PerlinNoise \<Rightarrow> nat \<Rightarrow> nat \<Rightarrow> nat \<Rightarrow> nat option" where
  "idx_BA this X Y Z = idx_plus (perm_at this (idx_B this X Y)) Z"

definition idx_BB :: "PerlinNoise \<Rightarrow> nat \<Rightarrow> nat \<Rightarrow> nat \<Rightarrow> nat option" where
  "idx_BB this X Y Z = idx_plus (perm_at this (idx_plus (idx_B this X Y) 1)) Z"

definition noise :: "PerlinNoise \<Rightarrow> real \<Rightarrow> real \<Rightarrow> real \<Rightarrow> real" where
  "noise this x0 y0 z0 =
     (let X = lattice x0; Y = lattice y0; Z = lattice z0;
          x = x0 - of_int \<lfloor>x0\<rfloor>; y = y0 - of_int \<lfloor>y0\<rfloor>; z = z0 - of_int \<lfloor>z0\<rfloor>;
          u = fade x; v = fade y; w = fade z;
          AA = idx_AA this X Y Z; AB = idx_AB this X Y Z;
          BA = idx_BA this X Y Z; BB = idx_BB this X Y Z
      in lerp w
           (lerp v
              (lerp u (grad (perm_at this AA) x y z) (grad (perm_at this BA) (x - 1) y z))
              (lerp u (grad (perm_at this AB) x (y - 1) z)
                      (grad (perm_at this BB) (x - 1) (y - 1) z)))
           (lerp v
              (lerp u (grad (perm_at this (idx_plus AA 1)) x y (z - 1))
                      (grad (perm_at this (idx_plus BA 1)) (x - 1) y (z - 1)))
              (lerp u (grad (perm_at this (idx_plus AB 1)) x (y - 1) (z - 1))
                      (grad (perm_at this (idx_plus BB 1)) (x - 1) (y - 1) (z - 1)))))"

text \<open>Every index at which one evaluation of \<open>noise\<close> reads the table, in the order of
  the source: the six reads that build \<open>A\<close>, \<open>AA\<close>, \<open>AB\<close>, \<open>B\<close>, \<open>BA\<close>, \<open>BB\<close>, then
  the eight reads passed to \<open>grad\<close>.\<close>

definition noise_reads :: "PerlinNoise \<Rightarrow> real \<Rightarrow> real \<Rightarrow> real \<Rightarrow> nat option list" where
  "noise_reads this x0 y0 z0 =
     (let X = lattice x0; Y = lattice y0; Z = lattice z0;
          A = idx_A this X Y; B = idx_B this X Y;
          AA = idx_AA this X Y Z; AB = idx_AB this X Y Z;
          BA = idx_BA this X Y Z; BB = idx_BB this X Y Z
      in [Some X, A, idx_plus A 1, Some (X + 1), B, idx_plus B 1,
          AA, BA, AB, BB,
          idx_plus AA 1, idx_plus BA 1, idx_plus AB 1, idx_plus BB 1])"

text \<open>A call of the method on an object, in state-passing form: the result and the
  object after the call. The method assigns only to its own parameters.\<close>

definition noise_call :: "real \<times> real \<times> real \<Rightarrow> PerlinNoise \<Rightarrow> real \<times> PerlinNoise" where
  "noise_call p this = (case p of (x, y, z) \<Rightarrow> (noise this x y z, this))"


text \<open>A sequence of calls on one object: the results, and the object at the end.\<close>

fun noise_calls :: "(real \<times> real \<times> real) list \<Rightarrow> PerlinNoise \<Rightarrow> real list \<times> PerlinNoise" where
  "noise_calls [] this = ([], this)"
| "noise_calls (p # ps) this =
     (case noise_call p this of
        (r, this') \<Rightarrow> (case noise_calls ps this' of (rs, this'') \<Rightarrow> (r # rs, this'')))"

subsection \<open>class CurlNoise\<close>

record CurlNoise =
  perlin :: PerlinNoise

definition CurlNoise_new :: "nat \<Rightarrow> CurlNoise" where
  "CurlNoise_new seed = \<lparr>perlin = PerlinNoise_new seed\<rparr>"

definition potential :: "CurlNoise \<Rightarrow> real \<Rightarrow> real \<Rightarrow> real \<Rightarrow> real" where
  "potential this x y z =
     noise (perlin this) (x * 1.0) (y * 1.0) (z * 1.0) * 1.0 +
     noise (perlin this) (x * 2.0) (y * 2.0) (z * 2.0) * 0.5 +
     noise (perlin this) (x * 4.0) (y * 4.0) (z * 4.0) * 0.25"

datatype vec3 = Vec3 (vec_x: num) (vec_y: num) (vec_z: num)

text \<open>The default value of the parameter \<open>epsilon\<close> of \<open>curl\<close>.\<close>

definition curl_default_epsilon :: real where
  "curl_default_epsilon = 0.0001"

text \<open>The last argument is the optional parameter: \<open>None\<close> when the caller omits it.\<close>

definition curl :: "CurlNoise \<Rightarrow> real \<Rightarrow> real \<Rightarrow> real \<Rightarrow> real option \<Rightarrow> vec3" where
  "curl this x y z epsilon_arg =
     (let epsilon = (case epsilon_arg of None \<Rightarrow> curl_default_epsilon | Some e \<Rightarrow> e);
          dx = epsilon; dy = epsilon; dz = epsilon;
          p_dx = potential this (x + dx) y z;
          n_dx = potential this (x - dx) y z;
          p_dy = potential this x (y + dy) z;
          n_dy = potential this x (y - dy) z;
          p_dz = potential this x y (z + dz);
          n_dz = potential this x y (z - dz);
          x_comp = num_sub (js_div (p_dz - n_dz) (2 * dy)) (js_div (p_dy - n_dy) (2 * dz));
          y_comp = num_sub (js_div (p_dx - n_dx) (2 * dz)) (js_div (p_dz - n_dz) (2 * dx));
          z_comp = num_sub (js_div (p_dy - n_dy) (2 * dx)) (js_div (p_dx - n_dx) (2 * dy))
      in Vec3 x_comp y_comp z_comp)"

section \<open>Pixel samplers (components/ThreeViewer)\<close>

text \<open>An \<open>ImageData\<close>: the bytes of a \<open>Uint8ClampedArray\<close>, four per pixel, row by row.
  Reading the array outside its range, or at an index that is NaN, gives \<open>undefined\<close>,
  and \<open>undefined / 255.0\<close> is NaN.\<close>

record ImageData =
  width :: nat
  height :: nat
  data :: "8 word list"

definition data_at :: "ImageData \<Rightarrow> int option \<Rightarrow> num" where
  "data_at imageData index =
     (case index of
        None \<Rightarrow> None
      | Some i \<Rightarrow>
          if 0 \<le> i \<and> i < int (length (data imageData))
          then Some (real (unat (data imageData ! nat i)) / 255.0)
          else None)"

definition sampleDepth :: "ImageData \<Rightarrow> num \<Rightarrow> num \<Rightarrow> num" where
  "sampleDepth imageData u v =
     (let index =
        (case (u, v) of
           (Some u', Some v') \<Rightarrow>
             (let x = \<lfloor>u' * (real (width imageData) - 1)\<rfloor>;
                  y = \<lfloor>v' * (real (height imageData) - 1)\<rfloor>
              in Some ((y * int (width imageData) + x) * 4))
         | _ \<Rightarrow> None)
      in data_at imageData index)"

datatype rgb = Rgb (rgb_r: num) (rgb_g: num) (rgb_b: num)

definition sampleColor :: "ImageData \<Rightarrow> num \<Rightarrow> num \<Rightarrow> rgb" where
  "sampleColor imageData u v =
     (let index =
        (case (u, v) of
           (Some u', Some v') \<Rightarrow>
             (let x = \<lfloor>u' * (real (width imageData) - 1)\<rfloor>;
                  y = \<lfloor>v' * (real (height imageData) - 1)\<rfloor>
              in Some ((y * int (width imageData) + x) * 4))
         | _ \<Rightarrow> None)
      in Rgb (data_at imageData index)
             (data_at imageData (map_option (\<lambda>i. i + 1) index))
             (data_at imageData (map_option (\<lambda>i. i + 2) index)))"

section \<open>Particle field (components/ThreeViewer, ParticleSystem)\<close>

text \<open>The three \<open>Float32Array\<close>s of the geometry are three separate buffers. A read
  outside a buffer gives \<open>undefined\<close>, which the arithmetic that follows turns into NaN;
  a write outside a buffer is ignored, as \<open>xs[i := v]\<close> is.\<close>

record geometry =
  baseUVs :: "num list"
  positions :: "num list"
  colors :: "num list"

definition f32_get :: "num list \<Rightarrow> nat \<Rightarrow> num" where
  "f32_get xs i = (if i < length xs then xs ! i else None)"

record particle_data =
  geometry :: geometry
  aspect :: num
  sampleW :: int
  sampleH :: int

text \<open>The body of the inner loop of \<open>particleData\<close>, on the pair of \<open>index\<close> and the
  buffers.\<close>

definition init_particle :: "int \<Rightarrow> int \<Rightarrow> nat \<Rightarrow> nat \<Rightarrow> nat \<times> geometry \<Rightarrow> nat \<times> geometry" where
  "init_particle sw sh y x st =
     (case st of
        (index, g) \<Rightarrow>
          (index + 1,
           g\<lparr>baseUVs := (baseUVs g)
                 [index * 2 + 0 := js_div (real x) (real_of_int (sw - 1)),
                  index * 2 + 1 := js_div (real y) (real_of_int (sh - 1))],
             positions := (positions g)
                 [index * 3 + 0 := Some 0, index * 3 + 1 := Some 0, index * 3 + 2 := Some 0],
             colors := (colors g)
                 [index * 3 + 0 := Some 1, index * 3 + 1 := Some 1, index * 3 + 2 := Some 1]\<rparr>))"

text \<open>The callback that builds the particle data. The images are given by their width
  and height, \<open>None\<close> while a texture has no image yet; the density is an integer (the
  toolbar passes the slider value through \<open>parseInt\<close>).\<close>

definition particleData :: "(nat \<times> nat) option \<Rightarrow> (nat \<times> nat) option \<Rightarrow> int \<Rightarrow> particle_data option" where
  "particleData colorTex_image dispTex_image particleDensity =
     (case (colorTex_image, dispTex_image) of
        (Some (w, h), Some _) \<Rightarrow>
          (let sw = min (int w) particleDensity;
               sh = min (int h) particleDensity;
               particleCount = sw * sh;
               g0 = \<lparr>baseUVs = replicate (nat (particleCount * 2)) (Some 0),
                     positions = replicate (nat (particleCount * 3)) (Some 0),
                     colors = replicate (nat (particleCount * 3)) (Some 0)\<rparr>;
               st = fold (\<lambda>y. fold (init_particle sw sh y) [0..<nat sw]) [0..<nat sh] (0, g0)
           in Some \<lparr>geometry = snd st, aspect = js_div (real w) (real h),
                    sampleW = sw, sampleH = sh\<rparr>)
      | _ \<Rightarrow> None)"

record sampling_data =
  colorImageData :: ImageData
  depthImageData :: ImageData

section \<open>Frame updater (components/ThreeViewer, the useFrame callback)\<close>

datatype noise_type = NoisePerlin | NoiseCurl

record props =
  displacementScale :: real
  animateParticles :: bool
  noiseType :: noise_type
  animationSpeed :: real
  noiseIntensity :: real

definition noiseGenerators_perlin :: PerlinNoise where
  "noiseGenerators_perlin = PerlinNoise_new 42"

definition noiseGenerators_curl :: CurlNoise where
  "noiseGenerators_curl = CurlNoise_new 42"

text \<open>The epsilon that the frame updater passes to \<open>curl\<close>.\<close>

definition frame_epsilon :: real where
  "frame_epsilon = 0.01"

text \<open>\<open>Math.max(0, Math.min(1, t))\<close>\<close>

definition clamp01 :: "num \<Rightarrow> num" where
  "clamp01 t = map_option (\<lambda>r. max 0 (min 1 r)) t"

text \<open>The sampling coordinate of a particle, from its base coordinate. If a base
  coordinate is NaN, both noise offsets are NaN (every term of \<open>noise\<close> carries the
  fade of each argument), and both clamped sums are NaN.\<close>

definition sampling_uv :: "props \<Rightarrow> real \<Rightarrow> num \<Rightarrow> num \<Rightarrow> num \<times> num" where
  "sampling_uv p time u v =
     (if animateParticles p then
        (case (u, v) of
           (Some u', Some v') \<Rightarrow>
             (let (offsetX, offsetY) =
                    (if noiseType p = NoisePerlin then
                       (Some (noise noiseGenerators_perlin (u' * 3) (v' * 3) (time * 0.5)
                                * noiseIntensity p),
                        Some (noise noiseGenerators_perlin (u' * 3 + 100) (v' * 3 + 100) (time * 0.5)
                                * noiseIntensity p))
                     else
                       (let c = curl noiseGenerators_curl (u' * 3) (v' * 3) (time * 0.5)
                                  (Some frame_epsilon)
                        in (num_mul (vec_x c) (Some (noiseIntensity p)),
                            num_mul (vec_y c) (Some (noiseIntensity p)))))
              in (clamp01 (num_add (Some u') offsetX), clamp01 (num_add (Some v') offsetY)))
         | _ \<Rightarrow> (None, None))
      else (u, v))"

text \<open>The body of the loop over the particles.\<close>

definition update_particle :: "props \<Rightarrow> num \<Rightarrow> sampling_data \<Rightarrow> real \<Rightarrow> nat \<Rightarrow> geometry \<Rightarrow> geometry" where
  "update_particle p asp sd time i g =
     (let (u, v) = sampling_uv p time (f32_get (baseUVs g) (i * 2 + 0))
                                      (f32_get (baseUVs g) (i * 2 + 1));
          xPos = num_mul (num_sub u (Some 0.5)) asp;
          yPos = num_mul (num_sub v (Some 0.5)) (Some (- 1));
          depth = sampleDepth (depthImageData sd) u v;
          zPos = num_mul depth (Some (displacementScale p));
          color = sampleColor (colorImageData sd) u v
      in g\<lparr>positions := (positions g)
                [i * 3 + 0 := xPos, i * 3 + 1 := yPos, i * 3 + 2 := zPos],
            colors := (colors g)
                [i * 3 + 0 := rgb_r color, i * 3 + 1 := rgb_g color, i * 3 + 2 := rgb_b color]\<rparr>)"

text \<open>The component between two frames: whether the points object is mounted
  (\<open>pointsRef.current\<close>, whose geometry is the geometry of \<open>particleData\<close>), the
  particle data and the sampling data, \<open>None\<close> while they are not built.\<close>

record ParticleSystem =
  pointsRef_current :: bool
  particleData_memo :: "particle_data option"
  samplingData_memo :: "sampling_data option"

text \<open>The number of iterations of \<open>for (let i = 0; i < positions.length / 3; i++)\<close>.
  The two \<open>needsUpdate\<close> flags that the callback sets after the loop belong to the
  renderer and are not part of the state.\<close>

definition particle_count :: "geometry \<Rightarrow> nat" where
  "particle_count g = (length (positions g) + 2) div 3"

definition useFrame :: "props \<Rightarrow> real \<Rightarrow> ParticleSystem \<Rightarrow> ParticleSystem" where
  "useFrame p elapsed c =
     (case (pointsRef_current c, particleData_memo c, samplingData_memo c) of
        (True, Some pd, Some sd) \<Rightarrow>
          (let time = elapsed * animationSpeed p;
               g = fold (update_particle p (aspect pd) sd time)
                     [0..<particle_count (geometry pd)] (geometry pd)
           in c\<lparr>particleData_memo := Some (pd\<lparr>geometry := g\<rparr>)\<rparr>)
      | _ \<Rightarrow> c)"

text \<open>A run of frames, each with the props and the elapsed time it reads.\<close>

definition frames :: "(props \<times> real) list \<Rightarrow> ParticleSystem \<Rightarrow> ParticleSystem" where
  "frames fs c = fold (\<lambda>(p, elapsed). useFrame p elapsed) fs c"

section \<open>Auxiliary definitions for the properties\<close>

text \<open>A table read at index \<open>i\<close> is in bounds: the index is a number, at most 511 and
  inside the table, and the element read is a number of the range 0 to 255.\<close>

definition read_ok :: "PerlinNoise \<Rightarrow> nat option \<Rightarrow> bool" where
  "read_ok this i =
     (case i of
        None \<Rightarrow> False
      | Some k \<Rightarrow> k \<le> 511 \<and> k < length (permutation this)
                 \<and> perm_at this i = Some (permutation this ! k)
                 \<and> permutation this ! k \<le> 255)"

text \<open>Division of two numbers that may be NaN.\<close>

definition num_div :: "num \<Rightarrow> num \<Rightarrow> num" where
  "num_div a b = (case (a, b) of (Some p, Some q) \<Rightarrow> js_div p q | _ \<Rightarrow> None)"

text \<open>Defined from the spec (testable property "divergence-free curl"), not from the
  source: the divergence of the field \<open>curl this \<cdot> \<cdot> \<cdot> (Some e)\<close> at a point, estimated
  by symmetric differences of step \<open>h\<close> along each axis.\<close>

definition spec_divergence :: "CurlNoise \<Rightarrow> real \<Rightarrow> real \<Rightarrow> real \<Rightarrow> real \<Rightarrow> real \<Rightarrow> num" where
  "spec_divergence this e h x y z =
     num_add
       (num_add
          (num_div (num_sub (vec_x (curl this (x + h) y z (Some e)))
                            (vec_x (curl this (x - h) y z (Some e)))) (Some (2 * h)))
          (num_div (num_sub (vec_y (curl this x (y + h) z (Some e)))
                            (vec_y (curl this x (y - h) z (Some e)))) (Some (2 * h))))
       (num_div (num_sub (vec_z (curl this x y (z + h) (Some e)))
                         (vec_z (curl this x y (z - h) (Some e)))) (Some (2 * h)))"

text \<open>A 2x2 image with distinct bytes in every pixel: pixel (0,0) is (10, 11, 12),
  pixel (1,0) is (20, 21, 22), pixel (0,1) is (30, 31, 32), pixel (1,1) is (40, 41, 42).\<close>

definition image2x2 :: ImageData where
  "image2x2 = \<lparr>width = 2, height = 2,
     data = [10, 11, 12, 255,  20, 21, 22, 255,
             30, 31, 32, 255,  40, 41, 42, 255]\<rparr>"

text \<open>The six values that the loop body writes for particle \<open>i\<close>, from the buffer of base
  coordinates: the position and the color.\<close>

definition particle_writes ::
  "props \<Rightarrow> num \<Rightarrow> sampling_data \<Rightarrow> real \<Rightarrow> num list \<Rightarrow> nat \<Rightarrow> (num \<times> num \<times> num) \<times> (num \<times> num \<times> num)" where
  "particle_writes p asp sd time b i =
     (let (u, v) = sampling_uv p time (f32_get b (i * 2 + 0)) (f32_get b (i * 2 + 1));
          color = sampleColor (colorImageData sd) u v
      in ((num_mul (num_sub u (Some 0.5)) asp,
           num_mul (num_sub v (Some 0.5)) (Some (- 1)),
           num_mul (sampleDepth (depthImageData sd) u v) (Some (displacementScale p))),
          (rgb_r color, rgb_g color, rgb_b color)))"

text \<open>Three consecutive writes into a buffer, at the slots of particle \<open>i\<close>.\<close>

definition write3 :: "'a list \<Rightarrow> nat \<Rightarrow> 'a \<times> 'a \<times> 'a \<Rightarrow> 'a list" where
  "write3 xs i t = (case t of (a, b, c) \<Rightarrow> xs[i * 3 + 0 := a, i * 3 + 1 := b, i * 3 + 2 := c])"

text \<open>The component \<open>m\<close> of a triple.\<close>

definition nth3 :: "'a \<times> 'a \<times> 'a \<Rightarrow> nat \<Rightarrow> 'a" where
  "nth3 t m = (case t of (a, b, c) \<Rightarrow> if m = 0 then a else if m = 1 then b else c)"

text \<open>The end-to-end scenario: a 4x4 image of red pixels, a 4x4 depth image whose pixels
  all hold the byte \<open>b\<close>, density 4, displacement scale 1, animation disabled.\<close>

definition e2e_color :: ImageData where
  "e2e_color = \<lparr>width = 4, height = 4, data = concat (replicate 16 [255, 0, 0, 255])\<rparr>"

definition e2e_depth :: "8 word \<Rightarrow> ImageData" where
  "e2e_depth b = \<lparr>width = 4, height = 4, data = concat (replicate 16 [b, b, b, 255])\<rparr>"

definition e2e_props :: props where
  "e2e_props = \<lparr>displacementScale = 1.0, animateParticles = False, noiseType = NoisePerlin,
                 animationSpeed = 1, noiseIntensity = 0.1\<rparr>"

definition e2e_system :: "8 word \<Rightarrow> ParticleSystem" where
  "e2e_system b = \<lparr>pointsRef_current = True,
                    particleData_memo = particleData (Some (4, 4)) (Some (4, 4)) 4,
                    samplingData_memo = Some \<lparr>colorImageData = e2e_color, depthImageData = e2e_depth b\<rparr>\<rparr>"

text \<open>The positions and the colors after one frame.\<close>

definition frame_positions :: "props \<Rightarrow> real \<Rightarrow> ParticleSystem \<Rightarrow> num list" where
  "frame_positions p elapsed c =
     (case particleData_memo (useFrame p elapsed c) of
        None \<Rightarrow> []
      | Some pd \<Rightarrow> positions (geometry pd))"

definition frame_colors :: "props \<Rightarrow> real \<Rightarrow> ParticleSystem \<Rightarrow> num list" where
  "frame_colors p elapsed c =
     (case particleData_memo (useFrame p elapsed c) of
        None \<Rightarrow> []
      | Some pd \<Rightarrow> colors (geometry pd))"

text \<open>Two consecutive writes into a buffer, at the slots of particle \<open>i\<close>.\<close>

definition write2 :: "'a list \<Rightarrow> nat \<Rightarrow> 'a \<times> 'a \<Rightarrow> 'a list" where
  "write2 xs i t = (case t of (a, b) \<Rightarrow> xs[i * 2 + 0 := a, i * 2 + 1 := b])"


text \<open>A white image one pixel wide and fifty pixels high.\<close>

definition thin_image :: ImageData where
  "thin_image = \<lparr>width = 1, height = 50, data = replicate 200 255\<rparr>"

text \<open>The mounted particle system of the image one pixel wide, at the density 256.\<close>

definition thin_system :: ParticleSystem where
  "thin_system =
     \<lparr>pointsRef_current = True,
      particleData_memo = particleData (Some (1, 50)) (Some (1, 50)) 256,
      samplingData_memo = Some \<lparr>colorImageData = thin_image, depthImageData = thin_image\<rparr>\<rparr>"

text \<open>The buffer of base coordinates of a system, empty while there is no particle data.\<close>

definition system_baseUVs :: "ParticleSystem \<Rightarrow> num list" where
  "system_baseUVs c =
     (case particleData_memo c of
        None \<Rightarrow> []
      | Some pd \<Rightarrow> baseUVs (geometry pd))"

text \<open>Props with animation enabled, for a noise kind.\<close>

definition animated_props :: "noise_type \<Rightarrow> props" where
  "animated_props kind =
     \<lparr>displacementScale = 1, animateParticles = True, noiseType = kind,
      animationSpeed = 1, noiseIntensity = 0.1\<rparr>"

text \<open>The swaps of the shuffle loop, in the order in which the loop makes them: the pair
  of \<open>i\<close> and \<open>j\<close> for every \<open>i\<close> from the start index down to 1.\<close>

fun shuffle_swaps :: "nat \<Rightarrow> nat \<Rightarrow> (nat \<times> nat) list" where
  "shuffle_swaps 0 state = []"
| "shuffle_swaps (Suc i) state =
     (let state' = random_next state
      in (Suc i, (state' * (Suc i + 1)) div 233280) # shuffle_swaps i state')"

text \<open>The position that a swap moves to position \<open>m\<close>.\<close>

definition transpose_at :: "nat \<times> nat \<Rightarrow> nat \<Rightarrow> nat" where
  "transpose_at sw m = (case sw of (a, b) \<Rightarrow> if m = a then b else if m = b then a else m)"

fun origin :: "(nat \<times> nat) list \<Rightarrow> nat \<Rightarrow> nat" where
  "origin [] k = k"
| "origin (sw # rest) k = transpose_at sw (origin rest k)"

text \<open>The swaps that the constructor makes for the seed 42.\<close>

definition swaps_42 :: "(nat \<times> nat) list" where
  "swaps_42 =
     [(255, 226), (254, 208), (253, 243), (252, 194), (251, 141), (250, 180), (249, 148),
      (248, 13), (247, 174), (246, 192), (245, 174), (244, 78), (243, 180), (242, 230), (241,
      240), (240, 215), (239, 43), (238, 32), (237, 155), (236, 197), (235, 38), (234, 103),
      (233, 73), (232, 115), (231, 155), (230, 9), (229, 125), (228, 173), (227, 98), (226,
      166), (225, 27), (224, 203), (223, 106), (222, 39), (221, 194), (220, 41), (219, 74),
      (218, 167), (217, 61), (216, 6), (215, 211), (214, 39), (213, 141), (212, 201), (211,
      64), (210, 137), (209, 15), (208, 13), (207, 86), (206, 161), (205, 180), (204, 77),
      (203, 99), (202, 31), (201, 190), (200, 122), (199, 64), (198, 106), (197, 111), (196,
      156), (195, 111), (194, 148), (193, 190), (192, 89), (191, 120), (190, 59), (189, 120),
      (188, 108), (187, 35), (186, 92), (185, 3), (184, 7), (183, 85), (182, 68), (181, 50),
      (180, 173), (179, 11), (178, 56), (177, 70), (176, 88), (175, 101), (174, 33), (173,
      17), (172, 81), (171, 131), (170, 48), (169, 71), (168, 88), (167, 77), (166, 140),
      (165, 149), (164, 9), (163, 24), (162, 48), (161, 77), (160, 121), (159, 21), (158, 24),
      (157, 13), (156, 131), (155, 76), (154, 85), (153, 124), (152, 139), (151, 86), (150,
      71), (149, 123), (148, 83), (147, 37), (146, 96), (145, 136), (144, 79), (143, 117),
      (142, 16), (141, 112), (140, 102), (139, 71), (138, 54), (137, 109), (136, 74), (135,
      105), (134, 60), (133, 85), (132, 45), (131, 13), (130, 25), (129, 67), (128, 21), (127,
      81), (126, 91), (125, 8), (124, 48), (123, 45), (122, 25), (121, 104), (120, 105), (119,
      2), (118, 54), (117, 76), (116, 106), (115, 71), (114, 14), (113, 33), (112, 84), (111,
      78), (110, 66), (109, 28), (108, 88), (107, 25), (106, 61), (105, 91), (104, 64), (103,
      11), (102, 27), (101, 16), (100, 29), (99, 44), (98, 28), (97, 50), (96, 79), (95, 39),
      (94, 20), (93, 75), (92, 88), (91, 73), (90, 74), (89, 28), (88, 60), (87, 23), (86,
      81), (85, 25), (84, 49), (83, 18), (82, 2), (81, 13), (80, 46), (79, 26), (78, 34), (77,
      34), (76, 46), (75, 62), (74, 15), (73, 18), (72, 53), (71, 22), (70, 50), (69, 41),
      (68, 11), (67, 26), (66, 53), (65, 12), (64, 45), (63, 50), (62, 49), (61, 3), (60, 59),
      (59, 22), (58, 53), (57, 44), (56, 22), (55, 34), (54, 31), (53, 12), (52, 34), (51,
      43), (50, 16), (49, 19), (48, 46), (47, 3), (46, 12), (45, 15), (44, 41), (43, 31), (42,
      18), (41, 10), (40, 4), (39, 24), (38, 19), (37, 34), (36, 12), (35, 2), (34, 17), (33,
      33), (32, 12), (31, 10), (30, 0), (29, 26), (28, 22), (27, 22), (26, 25), (25, 7), (24,
      19), (23, 0), (22, 5), (21, 8), (20, 10), (19, 2), (18, 0), (17, 14), (16, 4), (15, 1),
      (14, 5), (13, 2), (12, 12), (11, 7), (10, 2), (9, 1), (8, 8), (7, 6), (6, 0), (5, 4),
      (4, 1), (3, 0), (2, 1), (1, 0)]"

text \<open>One swap of two entries of the table.\<close>

definition swap_entries :: "nat \<times> nat \<Rightarrow> 'a list \<Rightarrow> 'a list" where
  "swap_entries sw p = (case sw of (a, b) \<Rightarrow> p[a := p ! b, b := p ! a])"

section \<open>Properties\<close>

subsection \<open>The permutation table\<close>

lemma random_next_lt: "random_next s < 233280"
  by (simp add: random_next_def)

lemma shuffle_index_le:
  assumes "s < 233280"
  shows "nat \<lfloor>real s / 233280 * real (Suc i + 1)\<rfloor> \<le> Suc i"
proof -
  have "real s / 233280 < 1" using assms by simp
  moreover have "0 < real (Suc i + 1)" by simp
  ultimately have "real s / 233280 * real (Suc i + 1) < 1 * real (Suc i + 1)"
    by (rule mult_strict_right_mono)
  then have "\<lfloor>real s / 233280 * real (Suc i + 1)\<rfloor> < int (Suc i + 1)"
    by (simp add: floor_less_iff)
  then show ?thesis by linarith
qed

lemma shuffle_length: "length (shuffle i s p) = length p"
  by (induction i arbitrary: s p) (simp_all add: Let_def)

lemma shuffle_bounded:
  "i < length p \<Longrightarrow> \<forall>e \<in> set p. e < n \<Longrightarrow> \<forall>e \<in> set (shuffle i s p). e < n"
proof (induction i arbitrary: s p)
  case 0
  then show ?case by simp
next
  case (Suc i)
  define s' where "s' = random_next s"
  define j where "j = nat \<lfloor>real s' / 233280 * real (Suc i + 1)\<rfloor>"
  define p' where "p' = p[Suc i := p ! j, j := p ! Suc i]"
  have j: "j \<le> Suc i" unfolding j_def s'_def by (rule shuffle_index_le [OF random_next_lt])
  have "\<forall>e \<in> set p'. e < n"
  proof
    fix e assume "e \<in> set p'"
    moreover have "set p' \<subseteq> insert (p ! Suc i) (set (p[Suc i := p ! j]))"
      unfolding p'_def by (rule set_update_subset_insert)
    moreover have "set (p[Suc i := p ! j]) \<subseteq> insert (p ! j) (set p)"
      by (rule set_update_subset_insert)
    ultimately have "e \<in> insert (p ! Suc i) (insert (p ! j) (set p))"
      by blast
    moreover have "p ! Suc i \<in> set p" "p ! j \<in> set p" using Suc.prems(1) j by auto
    ultimately show "e < n" using Suc.prems(2) by auto
  qed
  moreover have "i < length p'" using Suc.prems(1) by (simp add: p'_def)
  ultimately have "\<forall>e \<in> set (shuffle i s' p'). e < n" by (rule Suc.IH[rotated])
  then show ?case by (simp add: Let_def s'_def j_def p'_def)
qed

lemma permutation_length: "length (permutation (PerlinNoise_new seed)) = 512"
  by (simp add: PerlinNoise_new_def Let_def shuffle_length)

lemma permutation_entries:
  "k < 512 \<Longrightarrow> permutation (PerlinNoise_new seed) ! k < 256"
proof -
  assume k: "k < 512"
  have "\<forall>e \<in> set (shuffle 255 seed [0..<256]). e < 256"
    by (rule shuffle_bounded) simp_all
  then have "\<forall>e \<in> set (permutation (PerlinNoise_new seed)). e < 256"
    by (simp add: PerlinNoise_new_def Let_def)
  then show ?thesis using k permutation_length nth_mem by metis
qed

lemma lattice_le: "lattice x \<le> 255"
proof -
  have "\<lfloor>x\<rfloor> AND 255 = \<lfloor>x\<rfloor> mod 256"
    using take_bit_eq_mask[of 8 "\<lfloor>x\<rfloor>"] by (simp add: take_bit_eq_mod mask_eq_exp_minus_1)
  then show ?thesis unfolding lattice_def by (simp add: nat_le_iff) 
qed


lemma perm_at_new:
  "k < 512 \<Longrightarrow> \<exists>e. perm_at (PerlinNoise_new seed) (Some k) = Some e \<and> e \<le> 255
      \<and> e = permutation (PerlinNoise_new seed) ! k"
  using permutation_entries [of k seed] by (simp add: perm_at_def permutation_length)

lemma idx_A_new:
  assumes "X \<le> 255" "Y \<le> 255"
  shows "\<exists>a. idx_A (PerlinNoise_new seed) X Y = Some a \<and> a \<le> 510"
proof -
  from assms(1) have "X < 512" by simp
  from perm_at_new [OF this, of seed] obtain e
    where "perm_at (PerlinNoise_new seed) (Some X) = Some e" "e \<le> 255" by blast
  then show ?thesis using assms(2) by (simp add: idx_A_def idx_plus_def)
qed

lemma idx_B_new:
  assumes "X \<le> 255" "Y \<le> 255"
  shows "\<exists>a. idx_B (PerlinNoise_new seed) X Y = Some a \<and> a \<le> 510"
proof -
  from assms(1) have "X + 1 < 512" by simp
  from perm_at_new [OF this, of seed] obtain e
    where "perm_at (PerlinNoise_new seed) (Some (X + 1)) = Some e" "e \<le> 255" by blast
  then show ?thesis using assms(2) by (simp add: idx_B_def idx_plus_def)
qed

lemma idx_step_new:
  assumes "i = Some a" "a \<le> 511" "Z \<le> 255"
  shows "\<exists>b. idx_plus (perm_at (PerlinNoise_new seed) i) Z = Some b \<and> b \<le> 510"
proof -
  from assms(2) have "a < 512" by simp
  from perm_at_new [OF this, of seed] obtain e
    where "perm_at (PerlinNoise_new seed) (Some a) = Some e" "e \<le> 255" by blast
  then show ?thesis using assms(1,3) by (simp add: idx_plus_def)
qed

lemma read_ok_new: "k \<le> 511 \<Longrightarrow> read_ok (PerlinNoise_new seed) (Some k)"
  using perm_at_new [of k seed] by (auto simp: read_ok_def permutation_length)

lemma read_ok_succ: "i = Some a \<Longrightarrow> a \<le> 510 \<Longrightarrow> read_ok (PerlinNoise_new seed) (idx_plus i 1)"
  using read_ok_new [of "a + 1" seed] by (simp add: idx_plus_def)

lemma shuffle_permutes:
  "i < length p \<Longrightarrow> set (shuffle i s p) = set p \<and> (distinct (shuffle i s p) \<longleftrightarrow> distinct p)"
proof (induction i arbitrary: s p)
  case 0
  show ?case by simp
next
  case (Suc i)
  define s' where "s' = random_next s"
  define j where "j = nat \<lfloor>real s' / 233280 * real (Suc i + 1)\<rfloor>"
  define p' where "p' = p[Suc i := p ! j, j := p ! Suc i]"
  have j: "j \<le> Suc i" unfolding j_def s'_def by (rule shuffle_index_le [OF random_next_lt])
  then have jl: "j < length p" using Suc.prems by simp
  have "set p' = set p" unfolding p'_def using Suc.prems jl by (rule set_swap)
  moreover have "distinct p' \<longleftrightarrow> distinct p" unfolding p'_def using Suc.prems jl by (rule distinct_swap)
  moreover have "i < length p'" using Suc.prems by (simp add: p'_def)
  ultimately have "set (shuffle i s' p') = set p \<and> (distinct (shuffle i s' p') \<longleftrightarrow> distinct p)"
    using Suc.IH [of p' s'] by simp
  then show ?case by (simp add: Let_def s'_def j_def p'_def)
qed

lemma permutation_duplicated:
  "permutation (PerlinNoise_new seed) = shuffle 255 seed [0..<256] @ shuffle 255 seed [0..<256]
   \<and> length (shuffle 255 seed [0..<256]) = 256
   \<and> distinct (shuffle 255 seed [0..<256])
   \<and> set (shuffle 255 seed [0..<256]) = {0..<256}"
  using shuffle_permutes [of 255 "[0..<256]" seed]
  by (simp add: PerlinNoise_new_def Let_def shuffle_length)

text \<open>
  C10: every table read of one evaluation of \<open>noise\<close> is in bounds. The table of a
  generator has 512 entries, a permutation of the numbers 0 to 255 followed by itself;
  the lattice coordinates are at most 255; each of the
  fourteen indices read (those of \<open>X\<close>, \<open>A\<close>, \<open>A+1\<close>, \<open>X+1\<close>, \<open>B\<close>, \<open>B+1\<close>,
  \<open>AA\<close>, \<open>BA\<close>, \<open>AB\<close>, \<open>BB\<close>, \<open>AA+1\<close>, \<open>BA+1\<close>, \<open>AB+1\<close>, \<open>BB+1\<close>) is at
  most 511 and the element read there is a number, never \<open>undefined\<close>. The result of
  \<open>noise\<close> is then a real number, for every real input.
\<close>

theorem noise_reads_in_bounds:
  "length (permutation (PerlinNoise_new seed)) = 512
   \<and> permutation (PerlinNoise_new seed) = shuffle 255 seed [0..<256] @ shuffle 255 seed [0..<256]
   \<and> distinct (shuffle 255 seed [0..<256])
   \<and> set (shuffle 255 seed [0..<256]) = {0..<256}
   \<and> lattice x \<le> 255 \<and> lattice y \<le> 255 \<and> lattice z \<le> 255
   \<and> length (noise_reads (PerlinNoise_new seed) x y z) = 14
   \<and> list_all (read_ok (PerlinNoise_new seed)) (noise_reads (PerlinNoise_new seed) x y z)"
proof -
  let ?g = "PerlinNoise_new seed"
  note L = lattice_le [of x] lattice_le [of y] lattice_le [of z]
  obtain a where a: "idx_A ?g (lattice x) (lattice y) = Some a" "a \<le> 510"
    using idx_A_new [OF L(1) L(2)] by blast
  obtain b where b: "idx_B ?g (lattice x) (lattice y) = Some b" "b \<le> 510"
    using idx_B_new [OF L(1) L(2)] by blast
  obtain aa where aa: "idx_AA ?g (lattice x) (lattice y) (lattice z) = Some aa" "aa \<le> 510"
    unfolding idx_AA_def using idx_step_new [OF a(1) _ L(3)] a(2) by force
  obtain ab where ab: "idx_AB ?g (lattice x) (lattice y) (lattice z) = Some ab" "ab \<le> 510"
    unfolding idx_AB_def using idx_step_new [of "idx_plus (Some a) 1" "a + 1", OF _ _ L(3)] a
    by (force simp: idx_plus_def)
  obtain ba where ba: "idx_BA ?g (lattice x) (lattice y) (lattice z) = Some ba" "ba \<le> 510"
    unfolding idx_BA_def using idx_step_new [OF b(1) _ L(3)] b(2) by force
  obtain bb where bb: "idx_BB ?g (lattice x) (lattice y) (lattice z) = Some bb" "bb \<le> 510"
    unfolding idx_BB_def using idx_step_new [of "idx_plus (Some b) 1" "b + 1", OF _ _ L(3)] b
    by (force simp: idx_plus_def)
  have X: "read_ok ?g (Some (lattice x))" "read_ok ?g (Some (lattice x + 1))"
    using L(1) by (auto intro: read_ok_new)
  have R: "read_ok ?g (Some a)" "read_ok ?g (Some b)" "read_ok ?g (Some aa)"
      "read_ok ?g (Some ab)" "read_ok ?g (Some ba)" "read_ok ?g (Some bb)"
    using a(2) b(2) aa(2) ab(2) ba(2) bb(2) by (auto intro: read_ok_new)
  note S = read_ok_succ [OF refl a(2), of seed] read_ok_succ [OF refl b(2), of seed]
    read_ok_succ [OF refl aa(2), of seed] read_ok_succ [OF refl ab(2), of seed]
    read_ok_succ [OF refl ba(2), of seed] read_ok_succ [OF refl bb(2), of seed]
  have "list_all (read_ok ?g) (noise_reads ?g x y z)"
    unfolding noise_reads_def Let_def a(1) b(1) aa(1) ab(1) ba(1) bb(1)
    using X R S by simp
  moreover have "length (noise_reads ?g x y z) = 14"
    by (simp add: noise_reads_def Let_def)
  ultimately show ?thesis
    using L permutation_length [of seed] permutation_duplicated [of seed] by simp
qed

subsection \<open>Determinism of the scalar noise\<close>

lemma noise_calls_object: "snd (noise_calls ps this) = this"
proof (induction ps arbitrary: this)
  case Nil
  show ?case by simp
next
  case (Cons p ps)
  have "snd (noise_calls (p # ps) this) = snd (noise_calls ps this)"
    by (simp add: noise_call_def split: prod.splits)
  then show ?case by (simp add: Cons.IH)
qed

text \<open>
  C5: the scalar noise is deterministic and pure. A call leaves the object as it was;
  after any sequence of other calls on the generator built from seed \<open>s\<close>, a call at
  \<open>(x, y, z)\<close> returns the value of the first call at \<open>(x, y, z)\<close>, which is a function of
  the table and the input alone; the table after the calls is the table built at
  construction.
\<close>

theorem noise_deterministic:
  "snd (noise_call (x, y, z) (PerlinNoise_new s)) = PerlinNoise_new s
   \<and> fst (noise_call (x, y, z) (snd (noise_calls ps (PerlinNoise_new s))))
       = fst (noise_call (x, y, z) (PerlinNoise_new s))
   \<and> fst (noise_call (x, y, z) (PerlinNoise_new s)) = noise (PerlinNoise_new s) x y z
   \<and> permutation (snd (noise_calls ps (PerlinNoise_new s))) = permutation (PerlinNoise_new s)"
  by (simp add: noise_calls_object noise_call_def)

subsection \<open>Curl noise\<close>

lemma curl_components:
  assumes "e \<noteq> 0"
  shows "curl this x y z (Some e) =
     Vec3 (Some ((potential this x y (z + e) - potential this x y (z - e)) / (2 * e)
                 - (potential this x (y + e) z - potential this x (y - e) z) / (2 * e)))
          (Some ((potential this (x + e) y z - potential this (x - e) y z) / (2 * e)
                 - (potential this x y (z + e) - potential this x y (z - e)) / (2 * e)))
          (Some ((potential this x (y + e) z - potential this x (y - e) z) / (2 * e)
                 - (potential this (x + e) y z - potential this (x - e) y z) / (2 * e)))"
  using assms by (simp add: curl_def Let_def js_div_def num_lift2_def)

lemma divergence_vanishes:
  assumes "e \<noteq> 0"
  shows "spec_divergence this e e x y z = Some 0"
proof -
  have h: "2 * e \<noteq> 0" using assms by simp
  show ?thesis
    unfolding spec_divergence_def curl_components [OF assms]
    using h by (simp add: num_div_def js_div_def num_lift2_def field_simps)
qed

text \<open>
  For every generator, every point and every step \<open>e \<noteq> 0\<close>, the potential is the sum of
  three octaves of the scalar noise at frequencies 1, 2, 4 with amplitudes 1.0, 0.5, 0.25,
  the components of \<open>curl\<close> are the symmetric cross-differences of the potential, and
  the divergence estimated by symmetric differences at the very step of the curl is
  exactly zero. This holds for any potential: symmetric differences of one step commute.
\<close>

lemma curl_matched_step:
  assumes "e \<noteq> 0"
  shows "potential this x y z =
           noise (perlin this) x y z * 1.0
           + noise (perlin this) (x * 2) (y * 2) (z * 2) * 0.5
           + noise (perlin this) (x * 4) (y * 4) (z * 4) * 0.25
         \<and> vec_x (curl this x y z (Some e)) =
             Some ((potential this x y (z + e) - potential this x y (z - e)) / (2 * e)
                   - (potential this x (y + e) z - potential this x (y - e) z) / (2 * e))
         \<and> vec_y (curl this x y z (Some e)) =
             Some ((potential this (x + e) y z - potential this (x - e) y z) / (2 * e)
                   - (potential this x y (z + e) - potential this x y (z - e)) / (2 * e))
         \<and> vec_z (curl this x y z (Some e)) =
             Some ((potential this x (y + e) z - potential this x (y - e) z) / (2 * e)
                   - (potential this (x + e) y z - potential this (x - e) y z) / (2 * e))
         \<and> spec_divergence this e e x y z = Some 0"
  using divergence_vanishes [OF assms] by (simp add: curl_components [OF assms] potential_def)

text \<open>
  C7: the two epsilons of the finite differences differ. A call of \<open>curl\<close> without the
  parameter evaluates it with the default 0.0001; the frame updater passes 0.01, so the
  sampling coordinate of an animated particle under curl noise is computed from
  \<open>curl\<close> at 0.01.
\<close>

theorem curl_epsilon_inconsistent:
  "curl this x y z None = curl this x y z (Some curl_default_epsilon)
   \<and> curl_default_epsilon = 1 / 10000
   \<and> frame_epsilon = 1 / 100
   \<and> frame_epsilon \<noteq> curl_default_epsilon
   \<and> sampling_uv (p\<lparr>animateParticles := True, noiseType := NoiseCurl\<rparr>) t (Some u) (Some v) =
       (let c = curl noiseGenerators_curl (u * 3) (v * 3) (t * 0.5) (Some (1 / 100))
        in (clamp01 (num_add (Some u) (num_mul (vec_x c) (Some (noiseIntensity p)))),
            clamp01 (num_add (Some v) (num_mul (vec_y c) (Some (noiseIntensity p))))))"
  by (simp add: curl_def curl_default_epsilon_def frame_epsilon_def sampling_uv_def Let_def)

subsection \<open>The clamp of the sampling coordinate\<close>

text \<open>
  With animation enabled, for either noise kind, any intensity, any elapsed time and any
  base coordinate that is a number, both sampling coordinates are numbers of the
  interval from 0 to 1.
\<close>

lemma sampling_uv_clamped_numbers:
  assumes "animateParticles p"
  shows "\<exists>u' v'. sampling_uv p t (Some u) (Some v) = (Some u', Some v')
            \<and> 0 \<le> u' \<and> u' \<le> 1 \<and> 0 \<le> v' \<and> v' \<le> 1"
proof (cases "noiseType p = NoisePerlin")
  case True
  then show ?thesis using assms
    by (simp add: sampling_uv_def Let_def num_lift2_def clamp01_def)
next
  case False
  have e: "frame_epsilon \<noteq> 0" by (simp add: frame_epsilon_def)
  show ?thesis using assms False
    by (simp add: sampling_uv_def Let_def curl_components [OF e] num_lift2_def clamp01_def)
qed

subsection \<open>Pixel samplers\<close>

lemma floor_coordinate:
  assumes "1 \<le> n" "0 \<le> u" "u \<le> 1"
  shows "0 \<le> \<lfloor>u * (real n - 1)\<rfloor> \<and> nat \<lfloor>u * (real n - 1)\<rfloor> < n"
proof -
  have a: "0 \<le> real n - 1" using assms(1) by simp
  have "0 \<le> u * (real n - 1)" using assms(2) a by simp
  then have lo: "0 \<le> \<lfloor>u * (real n - 1)\<rfloor>" by simp
  have "u * (real n - 1) \<le> 1 * (real n - 1)" using assms(3) a by (rule mult_right_mono)
  then have "u * (real n - 1) < real n" by simp
  then have "\<lfloor>u * (real n - 1)\<rfloor> < int n" by (simp add: floor_less_iff)
  with lo show ?thesis by linarith
qed

lemma pixel_offset:
  assumes "x < (w::nat)" "y < (h::nat)"
  shows "(y * w + x) * 4 + 3 < 4 * w * h"
proof -
  have "y * w + x < (y + 1) * w" using assms(1) by (simp add: add_mult_distrib)
  also have "\<dots> \<le> h * w" using assms(2) by (intro mult_le_mono1) simp
  finally have "y * w + x + 1 \<le> h * w" by simp
  then have "(y * w + x + 1) * 4 \<le> h * w * 4" by (rule mult_le_mono1)
  then show ?thesis by (simp add: algebra_simps)
qed

lemma data_at_in_range:
  "k < length (data img) \<Longrightarrow> data_at img (Some (int k)) = Some (real (unat (data img ! k)) / 255)"
  by (simp add: data_at_def)

lemma sampler_index:
  assumes "1 \<le> width img" "1 \<le> height img" "0 \<le> u" "u \<le> 1" "0 \<le> v" "v \<le> 1"
  shows "(\<lfloor>v * (real (height img) - 1)\<rfloor> * int (width img) + \<lfloor>u * (real (width img) - 1)\<rfloor>) * 4
         = int ((nat \<lfloor>v * (real (height img) - 1)\<rfloor> * width img + nat \<lfloor>u * (real (width img) - 1)\<rfloor>) * 4)"
  using floor_coordinate [OF assms(1,3,4)] floor_coordinate [OF assms(2,5,6)] by simp

text \<open>
  C4: for an image of width and height at least 1 whose data holds four bytes per pixel,
  and \<open>(u, v)\<close> in the unit square, the samplers read the pixel at column
  \<open>floor(u (width - 1))\<close> and row \<open>floor(v (height - 1))\<close>, which lies inside the image:
  the depth sampler returns its first byte over 255, the color sampler its first three
  bytes over 255. On the 2x2 image, the samples at (0,0), (0.99,0.99) and (0.5,0.5) all
  return pixel (0,0), the pixel the floor selects.
\<close>

theorem samplers_nearest_pixel:
  "(1 \<le> width img \<and> 1 \<le> height img \<and> length (data img) = 4 * width img * height img
      \<and> 0 \<le> u \<and> u \<le> 1 \<and> 0 \<le> v \<and> v \<le> 1 \<longrightarrow>
    (let x = nat \<lfloor>u * (real (width img) - 1)\<rfloor>;
         y = nat \<lfloor>v * (real (height img) - 1)\<rfloor>;
         i = (y * width img + x) * 4
     in x < width img \<and> y < height img \<and> i + 3 < length (data img)
        \<and> sampleDepth img (Some u) (Some v) = Some (real (unat (data img ! i)) / 255)
        \<and> sampleColor img (Some u) (Some v) =
            Rgb (Some (real (unat (data img ! i)) / 255))
                (Some (real (unat (data img ! (i + 1))) / 255))
                (Some (real (unat (data img ! (i + 2))) / 255))))
   \<and> sampleDepth image2x2 (Some 0) (Some 0) = Some (10 / 255)
   \<and> sampleDepth image2x2 (Some 0.99) (Some 0.99) = Some (10 / 255)
   \<and> sampleDepth image2x2 (Some 0.5) (Some 0.5) = Some (10 / 255)
   \<and> sampleColor image2x2 (Some 0) (Some 0) = Rgb (Some (10 / 255)) (Some (11 / 255)) (Some (12 / 255))
   \<and> sampleColor image2x2 (Some 0.99) (Some 0.99) = Rgb (Some (10 / 255)) (Some (11 / 255)) (Some (12 / 255))
   \<and> sampleColor image2x2 (Some 0.5) (Some 0.5) = Rgb (Some (10 / 255)) (Some (11 / 255)) (Some (12 / 255))"
proof -
  have general: "(let x = nat \<lfloor>u * (real (width img) - 1)\<rfloor>;
         y = nat \<lfloor>v * (real (height img) - 1)\<rfloor>;
         i = (y * width img + x) * 4
     in x < width img \<and> y < height img \<and> i + 3 < length (data img)
        \<and> sampleDepth img (Some u) (Some v) = Some (real (unat (data img ! i)) / 255)
        \<and> sampleColor img (Some u) (Some v) =
            Rgb (Some (real (unat (data img ! i)) / 255))
                (Some (real (unat (data img ! (i + 1))) / 255))
                (Some (real (unat (data img ! (i + 2))) / 255)))"
    if h: "1 \<le> width img" "1 \<le> height img" "length (data img) = 4 * width img * height img"
       "0 \<le> u" "u \<le> 1" "0 \<le> v" "v \<le> 1"
  proof -
    define x where "x = nat \<lfloor>u * (real (width img) - 1)\<rfloor>"
    define y where "y = nat \<lfloor>v * (real (height img) - 1)\<rfloor>"
    define i where "i = (y * width img + x) * 4"
    have x: "x < width img" unfolding x_def using floor_coordinate [OF h(1,4,5)] by simp
    have y: "y < height img" unfolding y_def using floor_coordinate [OF h(2,6,7)] by simp
    have i: "i + 3 < length (data img)" unfolding i_def h(3) by (rule pixel_offset [OF x y])
    have idx: "(\<lfloor>v * (real (height img) - 1)\<rfloor> * int (width img) + \<lfloor>u * (real (width img) - 1)\<rfloor>) * 4 = int i"
      unfolding i_def x_def y_def by (rule sampler_index [OF h(1,2,4,5,6,7)])
    have i1: "int i + 1 = int (i + 1)" and i2: "int i + 2 = int (i + 2)" by simp_all
    have d: "sampleDepth img (Some u) (Some v) = Some (real (unat (data img ! i)) / 255)"
      unfolding sampleDepth_def Let_def prod.case option.case idx
      using i by (simp only: data_at_in_range)
    have c: "sampleColor img (Some u) (Some v) =
            Rgb (Some (real (unat (data img ! i)) / 255))
                (Some (real (unat (data img ! (i + 1))) / 255))
                (Some (real (unat (data img ! (i + 2))) / 255))"
      unfolding sampleColor_def Let_def prod.case option.case idx option.map i1 i2
      using i by (simp only: data_at_in_range)
    show ?thesis using x y i d c unfolding Let_def x_def [symmetric] y_def [symmetric] i_def [symmetric]
      by simp
  qed
  have f: "\<lfloor>99 / (100::real)\<rfloor> = 0" "\<lfloor>1 / (2::real)\<rfloor> = 0" by simp_all
  have c1: "sampleDepth image2x2 (Some 0) (Some 0) = Some (10 / 255)"
    by (simp add: sampleDepth_def image2x2_def data_at_def)
  have c2: "sampleDepth image2x2 (Some 0.99) (Some 0.99) = Some (10 / 255)"
    by (simp add: sampleDepth_def image2x2_def data_at_def f)
  have c3: "sampleDepth image2x2 (Some 0.5) (Some 0.5) = Some (10 / 255)"
    by (simp add: sampleDepth_def image2x2_def data_at_def f)
  have c4: "sampleColor image2x2 (Some 0) (Some 0) = Rgb (Some (10 / 255)) (Some (11 / 255)) (Some (12 / 255))"
    by (simp add: sampleColor_def image2x2_def data_at_def)
  have c5: "sampleColor image2x2 (Some 0.99) (Some 0.99) = Rgb (Some (10 / 255)) (Some (11 / 255)) (Some (12 / 255))"
    by (simp add: sampleColor_def image2x2_def data_at_def f)
  have c6: "sampleColor image2x2 (Some 0.5) (Some 0.5) = Rgb (Some (10 / 255)) (Some (11 / 255)) (Some (12 / 255))"
    by (simp add: sampleColor_def image2x2_def data_at_def f)
  show ?thesis using general c1 c2 c3 c4 c5 c6 by blast
qed

theorem samplers_nearest_pixel_witness:
  "sampleDepth image2x2 (Some 1) (Some 1) = Some (40 / 255)
   \<and> sampleColor image2x2 (Some 1) (Some 1) = Rgb (Some (40 / 255)) (Some (41 / 255)) (Some (42 / 255))
   \<and> sampleDepth image2x2 (Some 1) (Some 0.5) = Some (20 / 255)"
  using samplers_nearest_pixel [of image2x2 1 1] samplers_nearest_pixel [of image2x2 1 "1/2"]
  by (simp add: image2x2_def Let_def)

subsection \<open>The loop of the frame updater\<close>

lemma write3_length: "length (write3 xs i t) = length xs"
  by (simp add: write3_def split: prod.splits)

lemma write3_nth:
  "k < length xs \<Longrightarrow> write3 xs i t ! k = (if k div 3 = i then nth3 t (k mod 3) else xs ! k)"
proof -
  assume k: "k < length xs"
  obtain a b c where t: "t = (a, b, c)" by (cases t) auto
  have "k = i * 3 \<or> k = i * 3 + 1 \<or> k = i * 3 + 2 \<or> k div 3 \<noteq> i" by presburger
  moreover have "k = i * 3 \<Longrightarrow> k div 3 = i \<and> k mod 3 = 0" by presburger
  moreover have "k = i * 3 + 1 \<Longrightarrow> k div 3 = i \<and> k mod 3 = 1" by presburger
  moreover have "k = i * 3 + 2 \<Longrightarrow> k div 3 = i \<and> k mod 3 = 2" by presburger
  moreover have "k div 3 \<noteq> i \<Longrightarrow> k \<noteq> i * 3 \<and> k \<noteq> i * 3 + 1 \<and> k \<noteq> i * 3 + 2" by presburger
  ultimately show ?thesis using k
    by (auto simp: write3_def nth3_def t nth_list_update)
qed

lemma fold_write3_length: "length (fold (\<lambda>i xs. write3 xs i (f i)) [0..<n] xs) = length xs"
  by (induction n) (simp_all add: write3_length)

lemma fold_write3_nth:
  "k < length xs \<Longrightarrow>
   fold (\<lambda>i xs. write3 xs i (f i)) [0..<n] xs ! k
     = (if k div 3 < n then nth3 (f (k div 3)) (k mod 3) else xs ! k)"
proof (induction n)
  case 0
  show ?case by simp
next
  case (Suc n)
  have "k < length (fold (\<lambda>i xs. write3 xs i (f i)) [0..<n] xs)"
    using Suc.prems by (simp add: fold_write3_length)
  then show ?case using Suc by (auto simp: write3_nth less_Suc_eq)
qed

lemma fold_write3_idem:
  "fold (\<lambda>i xs. write3 xs i (f i)) [0..<n] (fold (\<lambda>i xs. write3 xs i (f i)) [0..<n] xs)
     = fold (\<lambda>i xs. write3 xs i (f i)) [0..<n] xs"
  by (rule nth_equalityI) (simp_all add: fold_write3_length fold_write3_nth)

lemma update_particle_writes:
  "update_particle p asp sd t i g =
     g\<lparr>positions := write3 (positions g) i (fst (particle_writes p asp sd t (baseUVs g) i)),
       colors := write3 (colors g) i (snd (particle_writes p asp sd t (baseUVs g) i))\<rparr>"
  by (simp add: update_particle_def particle_writes_def write3_def Let_def split: prod.splits)

lemma fold_update_particle:
  "fold (update_particle p asp sd t) [0..<n] g =
     g\<lparr>positions := fold (\<lambda>i xs. write3 xs i (fst (particle_writes p asp sd t (baseUVs g) i)))
                      [0..<n] (positions g),
       colors := fold (\<lambda>i xs. write3 xs i (snd (particle_writes p asp sd t (baseUVs g) i)))
                      [0..<n] (colors g)\<rparr>"
proof (induction n)
  case 0
  show ?case by simp
next
  case (Suc n)
  have "fold (update_particle p asp sd t) [0..<Suc n] g
          = update_particle p asp sd t n (fold (update_particle p asp sd t) [0..<n] g)"
    by simp
  also have "\<dots> = update_particle p asp sd t n
     (g\<lparr>positions := fold (\<lambda>i xs. write3 xs i (fst (particle_writes p asp sd t (baseUVs g) i)))
                      [0..<n] (positions g),
       colors := fold (\<lambda>i xs. write3 xs i (snd (particle_writes p asp sd t (baseUVs g) i)))
                      [0..<n] (colors g)\<rparr>)"
    by (simp only: Suc)
  also have "\<dots> =
     g\<lparr>positions := fold (\<lambda>i xs. write3 xs i (fst (particle_writes p asp sd t (baseUVs g) i)))
                      [0..<Suc n] (positions g),
       colors := fold (\<lambda>i xs. write3 xs i (snd (particle_writes p asp sd t (baseUVs g) i)))
                      [0..<Suc n] (colors g)\<rparr>"
    by (simp add: update_particle_writes)
  finally show ?case .
qed

lemma fold_update_particle_baseUVs:
  "baseUVs (fold (update_particle p asp sd t) [0..<n] g) = baseUVs g"
  by (simp add: fold_update_particle)

lemma useFrame_baseUVs:
  "map_option (\<lambda>pd. baseUVs (geometry pd)) (particleData_memo (useFrame p elapsed c))
     = map_option (\<lambda>pd. baseUVs (geometry pd)) (particleData_memo c)"
  by (simp add: useFrame_def Let_def fold_update_particle_baseUVs split: option.splits bool.splits)

lemma useFrame_fixed:
  "pointsRef_current (useFrame p elapsed c) = pointsRef_current c
   \<and> samplingData_memo (useFrame p elapsed c) = samplingData_memo c
   \<and> map_option aspect (particleData_memo (useFrame p elapsed c)) = map_option aspect (particleData_memo c)
   \<and> map_option sampleW (particleData_memo (useFrame p elapsed c)) = map_option sampleW (particleData_memo c)
   \<and> map_option sampleH (particleData_memo (useFrame p elapsed c)) = map_option sampleH (particleData_memo c)"
  by (simp add: useFrame_def Let_def split: option.splits bool.splits)

text \<open>
  C9: a frame leaves the base coordinates as they are. The loop body does not write the
  buffer of base coordinates, one frame does not, and a run of any number of frames,
  each with its own props and elapsed time, does not.
\<close>

theorem frames_keep_baseUVs:
  "map_option (\<lambda>pd. baseUVs (geometry pd)) (particleData_memo (frames fs c))
     = map_option (\<lambda>pd. baseUVs (geometry pd)) (particleData_memo c)
   \<and> map_option (\<lambda>pd. baseUVs (geometry pd)) (particleData_memo (useFrame p elapsed c))
     = map_option (\<lambda>pd. baseUVs (geometry pd)) (particleData_memo c)
   \<and> baseUVs (update_particle p asp sd t i g) = baseUVs g"
proof -
  have "map_option (\<lambda>pd. baseUVs (geometry pd)) (particleData_memo (fold (\<lambda>(p, elapsed). useFrame p elapsed) fs c))
     = map_option (\<lambda>pd. baseUVs (geometry pd)) (particleData_memo c)"
  proof (induction fs arbitrary: c)
    case Nil
    show ?case by simp
  next
    case (Cons f fs)
    obtain q e where f: "f = (q, e)" by (cases f) auto
    show ?case by (simp add: f Cons.IH useFrame_baseUVs)
  qed
  then show ?thesis by (simp add: frames_def useFrame_baseUVs update_particle_writes)
qed

subsection \<open>Frames with animation disabled\<close>

lemma sampling_uv_static: "\<not> animateParticles p \<Longrightarrow> sampling_uv p t u v = (u, v)"
  by (simp add: sampling_uv_def)

lemma particle_writes_static:
  "\<not> animateParticles p \<Longrightarrow> particle_writes p asp sd t b i = particle_writes p asp sd t' b i"
  by (simp add: particle_writes_def sampling_uv_static)

lemma useFrame_static:
  assumes "\<not> animateParticles p"
  shows "useFrame p t1 c = useFrame p t2 c"
proof -
  have "fold (update_particle p asp sd (t1 * animationSpeed p)) [0..<n] g
        = fold (update_particle p asp sd (t2 * animationSpeed p)) [0..<n] g" for asp sd n g
    unfolding fold_update_particle
    using particle_writes_static [OF assms, of asp sd "t1 * animationSpeed p" _ _ "t2 * animationSpeed p"]
    by simp
  then show ?thesis by (simp add: useFrame_def Let_def split: option.splits bool.splits)
qed

lemma fold_update_particle_idem:
  "fold (update_particle p asp sd t) [0..<particle_count (fold (update_particle p asp sd t) [0..<particle_count g] g)]
     (fold (update_particle p asp sd t) [0..<particle_count g] g)
   = fold (update_particle p asp sd t) [0..<particle_count g] g"
proof -
  let ?g1 = "fold (update_particle p asp sd t) [0..<particle_count g] g"
  have n: "particle_count ?g1 = particle_count g"
    by (simp add: fold_update_particle particle_count_def fold_write3_length)
  have b: "baseUVs ?g1 = baseUVs g" by (rule fold_update_particle_baseUVs)
  have "fold (update_particle p asp sd t) [0..<particle_count g] ?g1 = ?g1"
    unfolding fold_update_particle [of p asp sd t "particle_count g" ?g1] b
    unfolding fold_update_particle [of p asp sd t "particle_count g" g]
    by (simp add: fold_write3_idem)
  then show ?thesis by (simp only: n)
qed

lemma useFrame_idem: "useFrame p t (useFrame p t c) = useFrame p t c"
proof (cases "pointsRef_current c")
  case False
  then show ?thesis by (simp add: useFrame_def)
next
  case True
  show ?thesis
  proof (cases "particleData_memo c")
    case None
    then show ?thesis by (simp add: useFrame_def split: bool.splits)
  next
    case pd: (Some pd)
    show ?thesis
    proof (cases "samplingData_memo c")
      case None
      then show ?thesis by (simp add: useFrame_def split: bool.splits option.splits)
    next
      case (Some sd)
      show ?thesis using True pd Some
        by (simp add: useFrame_def Let_def fold_update_particle_idem)
    qed
  qed
qed

text \<open>
  C8: with animation disabled the sampling coordinate of a particle is its base
  coordinate, a frame gives the same result at any two elapsed times, and a second
  frame, run on the result of the first at another elapsed time, changes nothing.
\<close>

theorem disabled_animation_idempotent:
  assumes "\<not> animateParticles p"
  shows "sampling_uv p t u v = (u, v)
         \<and> useFrame p t1 c = useFrame p t2 c
         \<and> useFrame p t2 (useFrame p t1 c) = useFrame p t1 c"
proof -
  have "useFrame p t2 (useFrame p t1 c) = useFrame p t1 (useFrame p t1 c)"
    by (rule useFrame_static [OF assms])
  then show ?thesis
    using sampling_uv_static [OF assms] useFrame_static [OF assms, of t1 c t2]
    by (simp add: useFrame_idem)
qed

lemma num_neg: "num_mul (num_sub v (Some 0.5)) (Some (- 1)) = map_option (\<lambda>r. - (r - 1 / 2)) v"
  by (cases v) (simp_all add: num_lift2_def)

lemma useFrame_particle:
  assumes c: "pointsRef_current c" "particleData_memo c = Some pd" "samplingData_memo c = Some sd"
    and i: "i * 3 + 2 < length (positions (geometry pd))" "i * 3 + 2 < length (colors (geometry pd))"
    and uv: "sampling_uv p (elapsed * animationSpeed p)
               (f32_get (baseUVs (geometry pd)) (i * 2)) (f32_get (baseUVs (geometry pd)) (i * 2 + 1)) = (u, v)"
  shows "\<exists>pd'. particleData_memo (useFrame p elapsed c) = Some pd'
           \<and> positions (geometry pd') ! (i * 3) = num_mul (num_sub u (Some (1 / 2))) (aspect pd)
           \<and> positions (geometry pd') ! (i * 3 + 1) = map_option (\<lambda>r. - (r - 1 / 2)) v
           \<and> positions (geometry pd') ! (i * 3 + 2)
               = num_mul (sampleDepth (depthImageData sd) u v) (Some (displacementScale p))
           \<and> colors (geometry pd') ! (i * 3) = rgb_r (sampleColor (colorImageData sd) u v)
           \<and> colors (geometry pd') ! (i * 3 + 1) = rgb_g (sampleColor (colorImageData sd) u v)
           \<and> colors (geometry pd') ! (i * 3 + 2) = rgb_b (sampleColor (colorImageData sd) u v)"
proof -
  let ?g = "geometry pd"
  let ?t = "elapsed * animationSpeed p"
  let ?W = "particle_writes p (aspect pd) sd ?t (baseUVs ?g)"
  let ?g' = "fold (update_particle p (aspect pd) sd ?t) [0..<particle_count ?g] ?g"
  have n: "i < particle_count ?g" using i(1) by (simp add: particle_count_def)
  have d: "(i * 3) div 3 = i" "(i * 3 + 1) div 3 = i" "(i * 3 + 2) div 3 = i"
    "(i * 3) mod 3 = 0" "(i * 3 + 1) mod 3 = 1" "(i * 3 + 2) mod 3 = 2" by presburger+
  have W: "?W i = ((num_mul (num_sub u (Some (1 / 2))) (aspect pd),
                   num_mul (num_sub v (Some 0.5)) (Some (- 1)),
                   num_mul (sampleDepth (depthImageData sd) u v) (Some (displacementScale p))),
                  (rgb_r (sampleColor (colorImageData sd) u v),
                   rgb_g (sampleColor (colorImageData sd) u v),
                   rgb_b (sampleColor (colorImageData sd) u v)))"
    using uv by (simp add: particle_writes_def Let_def)
  have P: "positions ?g' ! k = nth3 (fst (?W (k div 3))) (k mod 3)"
    if "k < length (positions ?g)" "k div 3 < particle_count ?g" for k
    using that by (simp add: fold_update_particle fold_write3_nth)
  have C: "colors ?g' ! k = nth3 (snd (?W (k div 3))) (k mod 3)"
    if "k < length (colors ?g)" "k div 3 < particle_count ?g" for k
    using that by (simp add: fold_update_particle fold_write3_nth)
  have "particleData_memo (useFrame p elapsed c) = Some (pd\<lparr>geometry := ?g'\<rparr>)"
    using c by (simp add: useFrame_def Let_def)
  moreover have "positions ?g' ! (i * 3) = num_mul (num_sub u (Some (1 / 2))) (aspect pd)"
    using P [of "i * 3"] i(1) n by (simp only: d W) (simp add: nth3_def)
  moreover have "positions ?g' ! (i * 3 + 1) = num_mul (num_sub v (Some 0.5)) (Some (- 1))"
    using P [of "i * 3 + 1"] i(1) n by (simp only: d W) (simp add: nth3_def)
  then have "positions ?g' ! (i * 3 + 1) = map_option (\<lambda>r. - (r - 1 / 2)) v"
    by (simp only: num_neg)
  moreover have "positions ?g' ! (i * 3 + 2)
               = num_mul (sampleDepth (depthImageData sd) u v) (Some (displacementScale p))"
    using P [of "i * 3 + 2"] i(1) n by (simp only: d W) (simp add: nth3_def)
  moreover have "colors ?g' ! (i * 3) = rgb_r (sampleColor (colorImageData sd) u v)"
    using C [of "i * 3"] i(2) n by (simp only: d W) (simp add: nth3_def)
  moreover have "colors ?g' ! (i * 3 + 1) = rgb_g (sampleColor (colorImageData sd) u v)"
    using C [of "i * 3 + 1"] i(2) n by (simp only: d W) (simp add: nth3_def)
  moreover have "colors ?g' ! (i * 3 + 2) = rgb_b (sampleColor (colorImageData sd) u v)"
    using C [of "i * 3 + 2"] i(2) n by (simp only: d W) (simp add: nth3_def)
  ultimately show ?thesis by simp
qed

subsection \<open>The end-to-end scenario\<close>

theorem disabled_animation_idempotent_witness:
  "\<not> animateParticles e2e_props
   \<and> sampling_uv e2e_props 3 (Some (1 / 3)) (Some 1) = (Some (1 / 3), Some 1)
   \<and> useFrame e2e_props 1 (e2e_system 128) = useFrame e2e_props 3 (e2e_system 128)
   \<and> useFrame e2e_props 3 (useFrame e2e_props 1 (e2e_system 128))
       = useFrame e2e_props 1 (e2e_system 128)"
proof -
  have h: "\<not> animateParticles e2e_props" by (simp add: e2e_props_def)
  from h disabled_animation_idempotent [OF h, of 3 "Some (1 / 3)" "Some 1" 1 "e2e_system 128" 3]
  show ?thesis by (rule conjI)
qed



subsection \<open>The loops of the particle field builder\<close>

lemma write2_length: "length (write2 xs i t) = length xs"
  by (simp add: write2_def split: prod.splits)

lemma write2_nth:
  "k < length xs \<Longrightarrow>
   write2 xs i t ! k = (if k div 2 = i then (if k mod 2 = 0 then fst t else snd t) else xs ! k)"
proof -
  assume k: "k < length xs"
  obtain a b where t: "t = (a, b)" by (cases t) auto
  have "k = i * 2 \<or> k = i * 2 + 1 \<or> k div 2 \<noteq> i" by presburger
  moreover have "k = i * 2 \<Longrightarrow> k div 2 = i \<and> k mod 2 = 0" by presburger
  moreover have "k = i * 2 + 1 \<Longrightarrow> k div 2 = i \<and> k mod 2 = 1" by presburger
  moreover have "k div 2 \<noteq> i \<Longrightarrow> k \<noteq> i * 2 \<and> k \<noteq> i * 2 + 1" by presburger
  ultimately show ?thesis using k
    by (auto simp: write2_def t nth_list_update)
qed

lemma fold_write2_length: "length (fold (\<lambda>i xs. write2 xs i (f i)) [0..<n] xs) = length xs"
  by (induction n) (simp_all add: write2_length)

lemma fold_write2_nth:
  "k < length xs \<Longrightarrow>
   fold (\<lambda>i xs. write2 xs i (f i)) [0..<n] xs ! k
     = (if k div 2 < n then (if k mod 2 = 0 then fst (f (k div 2)) else snd (f (k div 2)))
        else xs ! k)"
proof (induction n)
  case 0
  show ?case by simp
next
  case (Suc n)
  have "k < length (fold (\<lambda>i xs. write2 xs i (f i)) [0..<n] xs)"
    using Suc.prems by (simp add: fold_write2_length)
  then show ?case using Suc by (auto simp: write2_nth less_Suc_eq)
qed

lemma row_of_cells:
  "fold (\<lambda>k. f (k div n) (k mod n)) [m * n..<m * n + n] s = fold (f m) [0..<n] s"
proof -
  have "[m * n..<m * n + n] = map (\<lambda>x. x + m * n) [0..<n]"
    by (simp add: map_add_upt add.commute)
  then have "fold (\<lambda>k. f (k div n) (k mod n)) [m * n..<m * n + n] s
             = fold ((\<lambda>k. f (k div n) (k mod n)) \<circ> (\<lambda>x. x + m * n)) [0..<n] s"
    by (simp only: fold_map)
  also have "\<dots> = fold (f m) [0..<n] s"
    by (rule fold_cong) (auto simp: div_mult_self3)
  finally show ?thesis .
qed

lemma nested_loops_flat:
  "fold (\<lambda>y. fold (f y) [0..<n]) [0..<m] s = fold (\<lambda>k. f (k div n) (k mod n)) [0..<m * n] s"
proof (induction m)
  case 0
  show ?case by simp
next
  case (Suc m)
  have "[0..<Suc m * n] = [0..<m * n] @ [m * n..<m * n + n]"
    using upt_add_eq_append [of 0 "m * n" n] by (simp add: add.commute)
  then show ?case by (simp add: Suc row_of_cells)
qed

lemma init_particle_writes:
  "init_particle sw sh y x (k, g) =
     (k + 1,
      g\<lparr>baseUVs := write2 (baseUVs g) k
                      (js_div (real x) (real_of_int (sw - 1)), js_div (real y) (real_of_int (sh - 1))),
        positions := write3 (positions g) k (Some 0, Some 0, Some 0),
        colors := write3 (colors g) k (Some 1, Some 1, Some 1)\<rparr>)"
  by (simp add: init_particle_def write2_def write3_def)

lemma fold_init_particle:
  "fold (\<lambda>k. init_particle sw sh (k div n) (k mod n)) [0..<N] (0, g) =
     (N,
      g\<lparr>baseUVs := fold (\<lambda>k xs. write2 xs k (js_div (real (k mod n)) (real_of_int (sw - 1)),
                                                js_div (real (k div n)) (real_of_int (sh - 1))))
                      [0..<N] (baseUVs g),
        positions := fold (\<lambda>k xs. write3 xs k (Some 0, Some 0, Some 0)) [0..<N] (positions g),
        colors := fold (\<lambda>k xs. write3 xs k (Some 1, Some 1, Some 1)) [0..<N] (colors g)\<rparr>)"
proof (induction N)
  case 0
  show ?case by simp
next
  case (Suc N)
  have "fold (\<lambda>k. init_particle sw sh (k div n) (k mod n)) [0..<Suc N] (0, g)
        = init_particle sw sh (N div n) (N mod n)
            (fold (\<lambda>k. init_particle sw sh (k div n) (k mod n)) [0..<N] (0, g))"
    by simp
  also have "\<dots> = init_particle sw sh (N div n) (N mod n) (N,
      g\<lparr>baseUVs := fold (\<lambda>k xs. write2 xs k (js_div (real (k mod n)) (real_of_int (sw - 1)),
                                                js_div (real (k div n)) (real_of_int (sh - 1))))
                      [0..<N] (baseUVs g),
        positions := fold (\<lambda>k xs. write3 xs k (Some 0, Some 0, Some 0)) [0..<N] (positions g),
        colors := fold (\<lambda>k xs. write3 xs k (Some 1, Some 1, Some 1)) [0..<N] (colors g)\<rparr>)"
    by (simp only: Suc)
  also have "\<dots> = (Suc N,
      g\<lparr>baseUVs := fold (\<lambda>k xs. write2 xs k (js_div (real (k mod n)) (real_of_int (sw - 1)),
                                                js_div (real (k div n)) (real_of_int (sh - 1))))
                      [0..<Suc N] (baseUVs g),
        positions := fold (\<lambda>k xs. write3 xs k (Some 0, Some 0, Some 0)) [0..<Suc N] (positions g),
        colors := fold (\<lambda>k xs. write3 xs k (Some 1, Some 1, Some 1)) [0..<Suc N] (colors g)\<rparr>)"
    by (simp add: init_particle_writes)
  finally show ?case .
qed

text \<open>The result of the builder, with the two loops flattened.\<close>

lemma particleData_flat:
  "particleData (Some (w, h)) (Some d) density =
     (let sw = min (int w) density; sh = min (int h) density; N = nat sh * nat sw
      in Some \<lparr>geometry =
                 \<lparr>baseUVs = fold (\<lambda>k xs. write2 xs k
                                      (js_div (real (k mod nat sw)) (real_of_int (sw - 1)),
                                       js_div (real (k div nat sw)) (real_of_int (sh - 1))))
                               [0..<N] (replicate (nat (sw * sh * 2)) (Some 0)),
                   positions = fold (\<lambda>k xs. write3 xs k (Some 0, Some 0, Some 0))
                                 [0..<N] (replicate (nat (sw * sh * 3)) (Some 0)),
                   colors = fold (\<lambda>k xs. write3 xs k (Some 1, Some 1, Some 1))
                              [0..<N] (replicate (nat (sw * sh * 3)) (Some 0))\<rparr>,
               aspect = js_div (real w) (real h), sampleW = sw, sampleH = sh\<rparr>)"
  by (simp add: particleData_def Let_def nested_loops_flat fold_init_particle)

lemma cell_index:
  assumes "x < (n::nat)" "y < (m::nat)"
  shows "y * n + x < m * n" "(y * n + x) mod n = x" "(y * n + x) div n = y"
proof -
  have "y * n + x < (y + 1) * n" using assms(1) by (simp add: add_mult_distrib)
  also have "\<dots> \<le> m * n" using assms(2) by (intro mult_le_mono1) simp
  finally show "y * n + x < m * n" .
  show "(y * n + x) mod n = x" using assms(1) by simp
  show "(y * n + x) div n = y" using assms(1) by simp
qed

lemma particleData_grid:
  fixes w h :: nat and density :: int
  defines "sw \<equiv> min (int w) density" and "sh \<equiv> min (int h) density"
  shows "\<exists>pd. particleData (Some (w, h)) (Some d) density = Some pd
           \<and> sampleW pd = sw \<and> sampleH pd = sh
           \<and> aspect pd = js_div (real w) (real h)
           \<and> length (baseUVs (geometry pd)) = nat (sw * sh * 2)
           \<and> length (positions (geometry pd)) = nat (sw * sh * 3)
           \<and> length (colors (geometry pd)) = nat (sw * sh * 3)
           \<and> (\<forall>x y. x < nat sw \<longrightarrow> y < nat sh \<longrightarrow>
                 baseUVs (geometry pd) ! ((y * nat sw + x) * 2)
                   = js_div (real x) (real_of_int (sw - 1))
                 \<and> baseUVs (geometry pd) ! ((y * nat sw + x) * 2 + 1)
                   = js_div (real y) (real_of_int (sh - 1)))"
proof -
  let ?N = "nat sh * nat sw"
  let ?f = "\<lambda>k. (js_div (real (k mod nat sw)) (real_of_int (sw - 1)),
                 js_div (real (k div nat sw)) (real_of_int (sh - 1)))"
  let ?b = "fold (\<lambda>k xs. write2 xs k (?f k)) [0..<?N] (replicate (nat (sw * sh * 2)) (Some 0))"
  let ?pd = "\<lparr>geometry =
                 \<lparr>baseUVs = ?b,
                   positions = fold (\<lambda>k xs. write3 xs k (Some 0, Some 0, Some 0))
                                 [0..<?N] (replicate (nat (sw * sh * 3)) (Some 0)),
                   colors = fold (\<lambda>k xs. write3 xs k (Some 1, Some 1, Some 1))
                              [0..<?N] (replicate (nat (sw * sh * 3)) (Some 0))\<rparr>,
               aspect = js_div (real w) (real h), sampleW = sw, sampleH = sh\<rparr>"
  have pd: "particleData (Some (w, h)) (Some d) density = Some ?pd"
    by (simp add: particleData_flat Let_def sw_def sh_def)
  have cells: "?b ! ((y * nat sw + x) * 2) = js_div (real x) (real_of_int (sw - 1))
             \<and> ?b ! ((y * nat sw + x) * 2 + 1) = js_div (real y) (real_of_int (sh - 1))"
    if x: "x < nat sw" and y: "y < nat sh" for x y
  proof -
    let ?k = "y * nat sw + x"
    note k = cell_index [OF x y]
    have pos: "0 \<le> sw" "0 \<le> sh" using x y by linarith+
    have "nat (sw * sh * 2) = nat sw * nat sh * 2"
      using pos by (simp add: nat_mult_distrib)
    then have len: "?k * 2 + 1 < nat (sw * sh * 2)" using k(1) by (simp add: mult.commute)
    have d: "(?k * 2) div 2 = ?k" "(?k * 2) mod 2 = 0" "(?k * 2 + 1) div 2 = ?k" "(?k * 2 + 1) mod 2 = 1"
      by presburger+
    have A: "?b ! (?k * 2) = fst (?f ?k)"
      using len k(1) by (subst fold_write2_nth) (simp_all only: length_replicate d if_True, simp)
    have B: "?b ! (?k * 2 + 1) = snd (?f ?k)"
      using len k(1) by (subst fold_write2_nth) (simp_all only: length_replicate d if_True, simp)
    have f1: "fst (?f ?k) = js_div (real x) (real_of_int (sw - 1))" by (simp only: fst_conv k(2))
    have f2: "snd (?f ?k) = js_div (real y) (real_of_int (sh - 1))" by (simp only: snd_conv k(3))
    from A [unfolded f1] B [unfolded f2] show ?thesis by (rule conjI)
  qed
  show ?thesis
    unfolding pd using cells
    by (simp add: fold_write2_length fold_write3_length)
qed

lemma particleData_field:
  fixes w h :: nat and density :: int
  assumes "2 \<le> w" "2 \<le> h" "2 \<le> density"
  shows "\<exists>pd. particleData (Some (w, h)) (Some d) density = Some pd
           \<and> sampleW pd = min (int w) density \<and> sampleH pd = min (int h) density
           \<and> length (baseUVs (geometry pd)) = nat (sampleW pd * sampleH pd) * 2
           \<and> length (positions (geometry pd)) = nat (sampleW pd * sampleH pd) * 3
           \<and> length (colors (geometry pd)) = nat (sampleW pd * sampleH pd) * 3
           \<and> (\<forall>x y. x < nat (sampleW pd) \<longrightarrow> y < nat (sampleH pd) \<longrightarrow>
                 baseUVs (geometry pd) ! ((y * nat (sampleW pd) + x) * 2)
                   = Some (real x / (real_of_int (sampleW pd) - 1))
                 \<and> baseUVs (geometry pd) ! ((y * nat (sampleW pd) + x) * 2 + 1)
                   = Some (real y / (real_of_int (sampleH pd) - 1))
                 \<and> 0 \<le> real x / (real_of_int (sampleW pd) - 1)
                 \<and> real x / (real_of_int (sampleW pd) - 1) \<le> 1
                 \<and> 0 \<le> real y / (real_of_int (sampleH pd) - 1)
                 \<and> real y / (real_of_int (sampleH pd) - 1) \<le> 1)"
proof -
  define sw where "sw = min (int w) density"
  define sh where "sh = min (int h) density"
  have two: "2 \<le> sw" "2 \<le> sh" using assms by (simp_all add: sw_def sh_def)
  from particleData_grid [of w h d density, folded sw_def sh_def] obtain pd where
    pd: "particleData (Some (w, h)) (Some d) density = Some pd"
      "sampleW pd = sw" "sampleH pd = sh"
      "length (baseUVs (geometry pd)) = nat (sw * sh * 2)"
      "length (positions (geometry pd)) = nat (sw * sh * 3)"
      "length (colors (geometry pd)) = nat (sw * sh * 3)"
    and cells: "\<And>x y. x < nat sw \<Longrightarrow> y < nat sh \<Longrightarrow>
                 baseUVs (geometry pd) ! ((y * nat sw + x) * 2)
                   = js_div (real x) (real_of_int (sw - 1))
                 \<and> baseUVs (geometry pd) ! ((y * nat sw + x) * 2 + 1)
                   = js_div (real y) (real_of_int (sh - 1))"
    by blast
  have nn: "0 \<le> sw * sh" using two by simp
  have lens: "nat (sw * sh * 2) = nat (sw * sh) * 2" "nat (sw * sh * 3) = nat (sw * sh) * 3"
    using nn by (simp_all add: nat_mult_distrib)
  have range: "0 \<le> real k / (real_of_int s - 1) \<and> real k / (real_of_int s - 1) \<le> 1
               \<and> js_div (real k) (real_of_int (s - 1)) = Some (real k / (real_of_int s - 1))"
    if "k < nat s" "2 \<le> s" for k s
  proof -
    have "real k \<le> real_of_int s - 1" using that by linarith
    moreover have "0 < real_of_int s - 1" using that by linarith
    ultimately show ?thesis by (simp add: js_div_def)
  qed
  have all: "\<forall>x y. x < nat sw \<longrightarrow> y < nat sh \<longrightarrow>
                 baseUVs (geometry pd) ! ((y * nat sw + x) * 2)
                   = Some (real x / (real_of_int sw - 1))
                 \<and> baseUVs (geometry pd) ! ((y * nat sw + x) * 2 + 1)
                   = Some (real y / (real_of_int sh - 1))
                 \<and> 0 \<le> real x / (real_of_int sw - 1)
                 \<and> real x / (real_of_int sw - 1) \<le> 1
                 \<and> 0 \<le> real y / (real_of_int sh - 1)
                 \<and> real y / (real_of_int sh - 1) \<le> 1"
  proof (intro allI impI)
    fix x y assume x: "x < nat sw" and y: "y < nat sh"
    from cells [OF x y] range [OF x two(1)] range [OF y two(2)]
    show "baseUVs (geometry pd) ! ((y * nat sw + x) * 2)
                   = Some (real x / (real_of_int sw - 1))
                 \<and> baseUVs (geometry pd) ! ((y * nat sw + x) * 2 + 1)
                   = Some (real y / (real_of_int sh - 1))
                 \<and> 0 \<le> real x / (real_of_int sw - 1)
                 \<and> real x / (real_of_int sw - 1) \<le> 1
                 \<and> 0 \<le> real y / (real_of_int sh - 1)
                 \<and> real y / (real_of_int sh - 1) \<le> 1"
      by (simp only: simp_thms)
  qed
  have "particleData (Some (w, h)) (Some d) density = Some pd
           \<and> sampleW pd = sw \<and> sampleH pd = sh
           \<and> length (baseUVs (geometry pd)) = nat (sampleW pd * sampleH pd) * 2
           \<and> length (positions (geometry pd)) = nat (sampleW pd * sampleH pd) * 3
           \<and> length (colors (geometry pd)) = nat (sampleW pd * sampleH pd) * 3
           \<and> (\<forall>x y. x < nat (sampleW pd) \<longrightarrow> y < nat (sampleH pd) \<longrightarrow>
                 baseUVs (geometry pd) ! ((y * nat (sampleW pd) + x) * 2)
                   = Some (real x / (real_of_int (sampleW pd) - 1))
                 \<and> baseUVs (geometry pd) ! ((y * nat (sampleW pd) + x) * 2 + 1)
                   = Some (real y / (real_of_int (sampleH pd) - 1))
                 \<and> 0 \<le> real x / (real_of_int (sampleW pd) - 1)
                 \<and> real x / (real_of_int (sampleW pd) - 1) \<le> 1
                 \<and> 0 \<le> real y / (real_of_int (sampleH pd) - 1)
                 \<and> real y / (real_of_int (sampleH pd) - 1) \<le> 1)"
    unfolding pd(2) pd(3) using pd(1,4,5,6) all by (simp only: lens simp_thms)
  then show ?thesis unfolding sw_def sh_def by - (rule exI [of _ pd], assumption)
qed

lemma particleData_100_50_256:
  "\<exists>pd. particleData (Some (100, 50)) (Some (100, 50)) 256 = Some pd
         \<and> sampleW pd = 100 \<and> sampleH pd = 50
         \<and> length (baseUVs (geometry pd)) = 5000 * 2
         \<and> length (positions (geometry pd)) = 5000 * 3
         \<and> length (colors (geometry pd)) = 5000 * 3"
proof -
  from particleData_field [of 100 50 256 "(100, 50)"] obtain pd where
    "particleData (Some (100, 50)) (Some (100, 50)) 256 = Some pd"
    "sampleW pd = min (int 100) 256" "sampleH pd = min (int 50) 256"
    "length (baseUVs (geometry pd)) = nat (sampleW pd * sampleH pd) * 2"
    "length (positions (geometry pd)) = nat (sampleW pd * sampleH pd) * 3"
    "length (colors (geometry pd)) = nat (sampleW pd * sampleH pd) * 3"
    by auto
  then show ?thesis by simp
qed

text \<open>
  C3 at an image one pixel wide: for a 1x50 image and the density 256, the builder
  makes \<open>sampleW = 1\<close>, \<open>sampleH = 50\<close> and 50 particles, and the base coordinate
  \<open>baseU = 0 / (1 - 1)\<close> of every particle is NaN, so it does not lie between 0 and 1.
\<close>

theorem particleData_one_pixel_wide:
  "\<exists>pd. particleData (Some (1, 50)) (Some (1, 50)) 256 = Some pd
         \<and> sampleW pd = 1 \<and> sampleH pd = 50
         \<and> length (baseUVs (geometry pd)) = 50 * 2
         \<and> list_all (\<lambda>y. baseUVs (geometry pd) ! (y * 2) = None) [0..<50]
         \<and> list_all (\<lambda>y. baseUVs (geometry pd) ! (y * 2 + 1) = Some (real y / 49)) [0..<50]"
proof -
  from particleData_grid [of 1 50 "(1, 50)" 256] obtain pd where
    pd: "particleData (Some (1, 50)) (Some (1, 50)) 256 = Some pd"
      "sampleW pd = 1" "sampleH pd = 50" "length (baseUVs (geometry pd)) = 50 * 2"
    and cells: "\<And>x y. x < nat 1 \<Longrightarrow> y < nat 50 \<Longrightarrow>
                 baseUVs (geometry pd) ! ((y * nat 1 + x) * 2)
                   = js_div (real x) (real_of_int (1 - 1))
                 \<and> baseUVs (geometry pd) ! ((y * nat 1 + x) * 2 + 1)
                   = js_div (real y) (real_of_int (50 - 1))"
    by auto
  have "baseUVs (geometry pd) ! (y * 2) = None
        \<and> baseUVs (geometry pd) ! (y * 2 + 1) = Some (real y / 49)" if "y < 50" for y
    using cells [of 0 y] that by (simp add: js_div_def)
  then show ?thesis using pd by (simp add: list_all_iff)
qed

subsection \<open>The end-to-end scenario at any depth\<close>











text \<open>No depth byte gives the depth 0.5: the depths that an image can hold are the
  bytes over 255. The depth image of constant byte 128 has the depth 128/255.\<close>

lemma byte_depth_not_half: "real (unat (b :: 8 word)) / 255 \<noteq> 1 / 2"
proof
  assume "real (unat b) / 255 = 1 / 2"
  then have "real (2 * unat b) = real 255" by simp
  then have "2 * unat b = 255" by (simp only: of_nat_eq_iff)
  then show False by presburger
qed



subsection \<open>The clamp on the field of an image one pixel wide\<close>

lemma sampling_uv_nan: "animateParticles p \<Longrightarrow> sampling_uv p t None v = (None, None)"
  by (simp add: sampling_uv_def)

lemma thin_system_frame:
  assumes i: "i < 50"
  shows "sampling_uv (animated_props kind) t
           (f32_get (system_baseUVs thin_system) (i * 2))
           (f32_get (system_baseUVs thin_system) (i * 2 + 1))
         = (None, None)
       \<and> frame_positions (animated_props kind) t thin_system ! (i * 3) = None
       \<and> frame_positions (animated_props kind) t thin_system ! (i * 3 + 1) = None
       \<and> frame_positions (animated_props kind) t thin_system ! (i * 3 + 2) = None
       \<and> frame_colors (animated_props kind) t thin_system ! (i * 3) = None
       \<and> frame_colors (animated_props kind) t thin_system ! (i * 3 + 1) = None
       \<and> frame_colors (animated_props kind) t thin_system ! (i * 3 + 2) = None"
proof -
  from particleData_grid [of 1 50 "(1, 50)" 256] obtain pd where
    pd: "particleData (Some (1, 50)) (Some (1, 50)) 256 = Some pd"
    and len: "length (baseUVs (geometry pd)) = 100" "length (positions (geometry pd)) = 150"
      "length (colors (geometry pd)) = 150"
    and cells: "\<And>x y. x < nat 1 \<Longrightarrow> y < nat 50 \<Longrightarrow>
                 baseUVs (geometry pd) ! ((y * nat 1 + x) * 2)
                   = js_div (real x) (real_of_int (1 - 1))"
    by auto
  let ?p = "animated_props kind"
  have u: "f32_get (baseUVs (geometry pd)) (i * 2) = None"
    using cells [of 0 i] i len(1) by (simp add: f32_get_def js_div_def)
  have a: "animateParticles ?p" by (simp add: animated_props_def)
  have uv: "sampling_uv ?p (t * animationSpeed ?p)
              (f32_get (baseUVs (geometry pd)) (i * 2)) (f32_get (baseUVs (geometry pd)) (i * 2 + 1))
            = (None, None)"
    unfolding u by (rule sampling_uv_nan [OF a])
  have uv': "sampling_uv ?p t
              (f32_get (baseUVs (geometry pd)) (i * 2)) (f32_get (baseUVs (geometry pd)) (i * 2 + 1))
            = (None, None)"
    unfolding u by (rule sampling_uv_nan [OF a])
  have sb: "system_baseUVs thin_system = baseUVs (geometry pd)"
    unfolding system_baseUVs_def thin_system_def pd by simp
  have c: "pointsRef_current thin_system" "particleData_memo thin_system = Some pd"
    "samplingData_memo thin_system = Some \<lparr>colorImageData = thin_image, depthImageData = thin_image\<rparr>"
    unfolding thin_system_def pd by simp_all
  have r: "i * 3 + 2 < length (positions (geometry pd))" "i * 3 + 2 < length (colors (geometry pd))"
    using i len by simp_all
  from useFrame_particle [OF c r uv] obtain pd' where
    f: "particleData_memo (useFrame ?p t thin_system) = Some pd'"
      "positions (geometry pd') ! (i * 3) = num_mul (num_sub None (Some (1 / 2))) (aspect pd)"
      "positions (geometry pd') ! (i * 3 + 1) = map_option (\<lambda>r. - (r - 1 / 2)) None"
      "positions (geometry pd') ! (i * 3 + 2)
         = num_mul (sampleDepth thin_image None None) (Some (displacementScale ?p))"
      "colors (geometry pd') ! (i * 3) = rgb_r (sampleColor thin_image None None)"
      "colors (geometry pd') ! (i * 3 + 1) = rgb_g (sampleColor thin_image None None)"
      "colors (geometry pd') ! (i * 3 + 2) = rgb_b (sampleColor thin_image None None)"
    by auto
  have "frame_positions ?p t thin_system = positions (geometry pd')"
    "frame_colors ?p t thin_system = colors (geometry pd')"
    by (simp_all add: frame_positions_def frame_colors_def f(1))
  then show ?thesis
    using uv' f(2-7)
    by (simp add: sb num_lift2_def sampleDepth_def sampleColor_def data_at_def)
qed

text \<open>
  C2 at an image one pixel wide: for the 1x50 image at the density 256, with animation
  enabled and either noise kind, the base coordinate \<open>baseU\<close> of every one of the 50
  particles is NaN, the clamp \<open>Math.max(0, Math.min(1, NaN))\<close> leaves NaN in both sampling
  coordinates, which therefore do not lie between 0 and 1, the samplers read
  \<open>data[NaN]\<close>, outside the image, and the frame writes NaN into every position and
  color.
\<close>

theorem clamp_passes_nan:
  "list_all (\<lambda>i.
      sampling_uv (animated_props NoisePerlin) 1
           (f32_get (system_baseUVs thin_system) (i * 2))
           (f32_get (system_baseUVs thin_system) (i * 2 + 1))
         = (None, None)
      \<and> sampling_uv (animated_props NoiseCurl) 1
           (f32_get (system_baseUVs thin_system) (i * 2))
           (f32_get (system_baseUVs thin_system) (i * 2 + 1))
         = (None, None)) [0..<50]
   \<and> clamp01 None = None
   \<and> sampleDepth thin_image None None = None
   \<and> length (frame_positions (animated_props NoisePerlin) 1 thin_system) = 150
   \<and> list_all (\<lambda>k. frame_positions (animated_props NoisePerlin) 1 thin_system ! k = None
                  \<and> frame_positions (animated_props NoiseCurl) 1 thin_system ! k = None
                  \<and> frame_colors (animated_props NoisePerlin) 1 thin_system ! k = None
                  \<and> frame_colors (animated_props NoiseCurl) 1 thin_system ! k = None) [0..<150]"
proof -
  have A: "sampling_uv (animated_props kind) 1
           (f32_get (system_baseUVs thin_system) (i * 2))
           (f32_get (system_baseUVs thin_system) (i * 2 + 1))
         = (None, None)" if "i < 50" for i kind
    using thin_system_frame [OF that] by blast
  have B: "frame_positions (animated_props kind) 1 thin_system ! k = None
         \<and> frame_colors (animated_props kind) 1 thin_system ! k = None" if k: "k < 150" for k kind
  proof -
    have i: "k div 3 < 50" using k by auto
    have "k = (k div 3) * 3 \<or> k = (k div 3) * 3 + 1 \<or> k = (k div 3) * 3 + 2" by presburger
    then show ?thesis using thin_system_frame [OF i, of kind 1] by metis
  qed
  have L: "length (frame_positions (animated_props NoisePerlin) 1 thin_system) = 150"
  proof -
    from particleData_grid [of 1 50 "(1, 50)" 256] obtain pd where
      pd: "particleData (Some (1, 50)) (Some (1, 50)) 256 = Some pd"
      and len: "length (positions (geometry pd)) = 150"
      by auto
    show ?thesis
      unfolding frame_positions_def useFrame_def thin_system_def pd
      by (simp add: Let_def fold_update_particle fold_write3_length len)
  qed
  have "clamp01 None = None" by (simp add: clamp01_def)
  moreover have "sampleDepth thin_image None None = None"
    by (simp add: sampleDepth_def data_at_def)
  ultimately show ?thesis using A B L by (simp add: list_all_iff)
qed

subsection \<open>The table of the seed 42\<close>

text \<open>The entries of the table that the evaluations below read, computed from the
  swaps of the shuffle: the entry at a position is the number that the swaps move there.\<close>

lemma shuffle_swaps_numeral:
  "shuffle_swaps (numeral k) state =
     (numeral k, (random_next state * (numeral k + 1)) div 233280)
       # shuffle_swaps (pred_numeral k) (random_next state)"
proof -
  have n: "numeral k = Suc (pred_numeral k)" by (rule numeral_eq_Suc)
  show ?thesis unfolding n by (simp only: shuffle_swaps.simps Let_def)
qed

lemma shuffle_swaps_42: "shuffle_swaps 255 42 = swaps_42"
  unfolding swaps_42_def by (simp add: shuffle_swaps_numeral random_next_def)

lemma origin_42:
  "origin swaps_42 0 = 94"
  "origin swaps_42 1 = 47"
  "origin swaps_42 (Suc 0) = 47"
  "origin swaps_42 2 = 147"
  "origin swaps_42 21 = 229"
  "origin swaps_42 22 = 5"
  "origin swaps_42 23 = 30"
  "origin swaps_42 24 = 235"
  "origin swaps_42 25 = 184"
  "origin swaps_42 47 = 116"
  "origin swaps_42 48 = 143"
  "origin swaps_42 49 = 19"
  "origin swaps_42 50 = 175"
  "origin swaps_42 94 = 20"
  "origin swaps_42 95 = 214"
  "origin swaps_42 96 = 144"
  "origin swaps_42 117 = 231"
  "origin swaps_42 118 = 138"
  "origin swaps_42 127 = 172"
  "origin swaps_42 128 = 159"
  "origin swaps_42 129 = 67"
  "origin swaps_42 144 = 79"
  "origin swaps_42 145 = 136"
  "origin swaps_42 146 = 96"
  "origin swaps_42 147 = 37"
  "origin swaps_42 149 = 123"
  "origin swaps_42 150 = 169"
  "origin swaps_42 173 = 17"
  "origin swaps_42 174 = 33"
  "origin swaps_42 175 = 101"
  "origin swaps_42 179 = 11"
  "origin swaps_42 180 = 228"
  "origin swaps_42 181 = 50"
  "origin swaps_42 215 = 211"
  "origin swaps_42 216 = 6"
  "origin swaps_42 217 = 61"
  unfolding swaps_42_def by (simp_all add: transpose_at_def)

lemma floor_index: "nat \<lfloor>real s / 233280 * real n\<rfloor> = (s * n) div 233280"
proof -
  have "real s / 233280 * real n = real (s * n) / real 233280" by simp
  then have "\<lfloor>real s / 233280 * real n\<rfloor> = \<lfloor>real (s * n) / real 233280\<rfloor>" by simp
  also have "\<dots> = int ((s * n) div 233280)" by (rule floor_divide_of_nat_eq)
  finally show ?thesis by simp
qed

lemma shuffle_as_swaps: "shuffle i s p = fold swap_entries (shuffle_swaps i s) p"
proof (induction i arbitrary: s p)
  case 0
  show ?case by simp
next
  case (Suc i)
  have "shuffle (Suc i) s p
        = shuffle i (random_next s)
            (swap_entries (Suc i, (random_next s * (Suc i + 1)) div 233280) p)"
    by (simp only: shuffle.simps Let_def floor_index swap_entries_def prod.case)
  also have "\<dots> = fold swap_entries (shuffle_swaps i (random_next s))
            (swap_entries (Suc i, (random_next s * (Suc i + 1)) div 233280) p)"
    by (rule Suc.IH)
  also have "\<dots> = fold swap_entries (shuffle_swaps (Suc i) s) p"
    by (simp only: shuffle_swaps.simps Let_def fold_simps)
  finally show ?case .
qed

lemma shuffle_swaps_range: "(a, b) \<in> set (shuffle_swaps i s) \<Longrightarrow> a \<le> i \<and> b \<le> a"
proof (induction i arbitrary: s)
  case 0
  then show ?case by simp
next
  case (Suc i)
  have "random_next s * (Suc i + 1) < 233280 * (Suc i + 1)"
    by (rule mult_less_mono1 [OF random_next_lt]) simp
  then have "random_next s * (Suc i + 1) < (Suc i + 1) * 233280"
    by (simp only: mult.commute)
  then have j: "(random_next s * (Suc i + 1)) div 233280 \<le> Suc i"
    using less_mult_imp_div_less [of "random_next s * (Suc i + 1)" "Suc i + 1" 233280] by simp
  from Suc.prems have "(a, b) = (Suc i, (random_next s * (Suc i + 1)) div 233280)
      \<or> (a, b) \<in> set (shuffle_swaps i (random_next s))"
    by (simp add: Let_def)
  then show ?case
  proof
    assume "(a, b) = (Suc i, (random_next s * (Suc i + 1)) div 233280)"
    then show ?thesis using j by simp
  next
    assume "(a, b) \<in> set (shuffle_swaps i (random_next s))"
    from Suc.IH [OF this] show ?thesis by simp
  qed
qed

lemma swap_entries_nth:
  assumes "a < length p" "b < length p" "m < length p"
  shows "swap_entries (a, b) p ! m = p ! transpose_at (a, b) m"
  using assms by (auto simp: swap_entries_def transpose_at_def nth_list_update)

lemma fold_swaps_nth:
  "(\<And>a b. (a, b) \<in> set sws \<Longrightarrow> a < length p \<and> b < length p) \<Longrightarrow> k < length p \<Longrightarrow>
   fold swap_entries sws p ! k = p ! origin sws k \<and> origin sws k < length p"
proof (induction sws arbitrary: p)
  case Nil
  then show ?case by simp
next
  case (Cons sw sws)
  obtain a b where sw: "sw = (a, b)" by (cases sw) auto
  have ab: "a < length p" "b < length p" using Cons.prems(1) [of a b] by (simp_all add: sw)
  have len: "length (swap_entries sw p) = length p" by (simp add: swap_entries_def sw)
  have "\<And>a b. (a, b) \<in> set sws \<Longrightarrow> a < length (swap_entries sw p) \<and> b < length (swap_entries sw p)"
    using Cons.prems(1) unfolding len by (meson list.set_intros(2))
  moreover have "k < length (swap_entries sw p)" using Cons.prems(2) by (simp add: len)
  ultimately have IH: "fold swap_entries sws (swap_entries sw p) ! k = swap_entries sw p ! origin sws k
            \<and> origin sws k < length (swap_entries sw p)"
    by (rule Cons.IH)
  then have o: "origin sws k < length p" by (simp add: len)
  have "swap_entries sw p ! origin sws k = p ! transpose_at sw (origin sws k)"
    unfolding sw by (rule swap_entries_nth [OF ab o])
  moreover have "transpose_at sw (origin sws k) < length p"
    using ab o by (simp add: transpose_at_def sw)
  ultimately show ?case using IH by simp
qed

lemma permutation_42_nth:
  assumes "k < 256"
  shows "permutation (PerlinNoise_new 42) ! k = origin swaps_42 k"
proof -
  have r: "a < length [0..<256] \<and> b < length [0..<256]" if "(a, b) \<in> set (shuffle_swaps 255 42)" for a b
    using shuffle_swaps_range [OF that] by simp
  have k: "k < length [0..<256]" using assms by simp
  from fold_swaps_nth [of "shuffle_swaps 255 42" "[0..<256]" k, OF r k]
  have "shuffle 255 42 [0..<256] ! k = origin swaps_42 k"
    by (simp add: shuffle_as_swaps shuffle_swaps_42)
  then show ?thesis using assms by (simp add: PerlinNoise_new_def Let_def nth_append shuffle_length)
qed

lemma table_42:
  "permutation (PerlinNoise_new 42) ! 0 = 94"
  "permutation (PerlinNoise_new 42) ! 1 = 47"
  "permutation (PerlinNoise_new 42) ! Suc 0 = 47"
  "permutation (PerlinNoise_new 42) ! 2 = 147"
  "permutation (PerlinNoise_new 42) ! 21 = 229"
  "permutation (PerlinNoise_new 42) ! 22 = 5"
  "permutation (PerlinNoise_new 42) ! 23 = 30"
  "permutation (PerlinNoise_new 42) ! 24 = 235"
  "permutation (PerlinNoise_new 42) ! 25 = 184"
  "permutation (PerlinNoise_new 42) ! 47 = 116"
  "permutation (PerlinNoise_new 42) ! 48 = 143"
  "permutation (PerlinNoise_new 42) ! 49 = 19"
  "permutation (PerlinNoise_new 42) ! 50 = 175"
  "permutation (PerlinNoise_new 42) ! 94 = 20"
  "permutation (PerlinNoise_new 42) ! 95 = 214"
  "permutation (PerlinNoise_new 42) ! 96 = 144"
  "permutation (PerlinNoise_new 42) ! 117 = 231"
  "permutation (PerlinNoise_new 42) ! 118 = 138"
  "permutation (PerlinNoise_new 42) ! 127 = 172"
  "permutation (PerlinNoise_new 42) ! 128 = 159"
  "permutation (PerlinNoise_new 42) ! 129 = 67"
  "permutation (PerlinNoise_new 42) ! 144 = 79"
  "permutation (PerlinNoise_new 42) ! 145 = 136"
  "permutation (PerlinNoise_new 42) ! 146 = 96"
  "permutation (PerlinNoise_new 42) ! 147 = 37"
  "permutation (PerlinNoise_new 42) ! 149 = 123"
  "permutation (PerlinNoise_new 42) ! 150 = 169"
  "permutation (PerlinNoise_new 42) ! 173 = 17"
  "permutation (PerlinNoise_new 42) ! 174 = 33"
  "permutation (PerlinNoise_new 42) ! 175 = 101"
  "permutation (PerlinNoise_new 42) ! 179 = 11"
  "permutation (PerlinNoise_new 42) ! 180 = 228"
  "permutation (PerlinNoise_new 42) ! 181 = 50"
  "permutation (PerlinNoise_new 42) ! 215 = 211"
  "permutation (PerlinNoise_new 42) ! 216 = 6"
  "permutation (PerlinNoise_new 42) ! 217 = 61"
  by (simp_all add: permutation_42_nth origin_42)

subsection \<open>Evaluation of the noise\<close>

lemma noise_unfold:
  "noise this x0 y0 z0 =
     lerp (fade (z0 - of_int \<lfloor>z0\<rfloor>))
       (lerp (fade (y0 - of_int \<lfloor>y0\<rfloor>))
          (lerp (fade (x0 - of_int \<lfloor>x0\<rfloor>))
             (grad (perm_at this (idx_AA this (lattice x0) (lattice y0) (lattice z0)))
                (x0 - of_int \<lfloor>x0\<rfloor>) (y0 - of_int \<lfloor>y0\<rfloor>) (z0 - of_int \<lfloor>z0\<rfloor>))
             (grad (perm_at this (idx_BA this (lattice x0) (lattice y0) (lattice z0)))
                (x0 - of_int \<lfloor>x0\<rfloor> - 1) (y0 - of_int \<lfloor>y0\<rfloor>) (z0 - of_int \<lfloor>z0\<rfloor>)))
          (lerp (fade (x0 - of_int \<lfloor>x0\<rfloor>))
             (grad (perm_at this (idx_AB this (lattice x0) (lattice y0) (lattice z0)))
                (x0 - of_int \<lfloor>x0\<rfloor>) (y0 - of_int \<lfloor>y0\<rfloor> - 1) (z0 - of_int \<lfloor>z0\<rfloor>))
             (grad (perm_at this (idx_BB this (lattice x0) (lattice y0) (lattice z0)))
                (x0 - of_int \<lfloor>x0\<rfloor> - 1) (y0 - of_int \<lfloor>y0\<rfloor> - 1) (z0 - of_int \<lfloor>z0\<rfloor>))))
       (lerp (fade (y0 - of_int \<lfloor>y0\<rfloor>))
          (lerp (fade (x0 - of_int \<lfloor>x0\<rfloor>))
             (grad (perm_at this (idx_plus (idx_AA this (lattice x0) (lattice y0) (lattice z0)) 1))
                (x0 - of_int \<lfloor>x0\<rfloor>) (y0 - of_int \<lfloor>y0\<rfloor>) (z0 - of_int \<lfloor>z0\<rfloor> - 1))
             (grad (perm_at this (idx_plus (idx_BA this (lattice x0) (lattice y0) (lattice z0)) 1))
                (x0 - of_int \<lfloor>x0\<rfloor> - 1) (y0 - of_int \<lfloor>y0\<rfloor>) (z0 - of_int \<lfloor>z0\<rfloor> - 1)))
          (lerp (fade (x0 - of_int \<lfloor>x0\<rfloor>))
             (grad (perm_at this (idx_plus (idx_AB this (lattice x0) (lattice y0) (lattice z0)) 1))
                (x0 - of_int \<lfloor>x0\<rfloor>) (y0 - of_int \<lfloor>y0\<rfloor> - 1) (z0 - of_int \<lfloor>z0\<rfloor> - 1))
             (grad (perm_at this (idx_plus (idx_BB this (lattice x0) (lattice y0) (lattice z0)) 1))
                (x0 - of_int \<lfloor>x0\<rfloor> - 1) (y0 - of_int \<lfloor>y0\<rfloor> - 1) (z0 - of_int \<lfloor>z0\<rfloor> - 1))))"
  by (simp only: noise_def Let_def)

lemma and_2_eq_0: "(h AND 2 = 0) = even (h div 2)" for h :: nat
  using and_exp_eq_0_iff_not_bit [of h 1] by (simp add: bit_iff_odd)

lemma and_15: "k AND 15 = k mod 16" for k :: nat
  using take_bit_eq_mask [of 4 k] by (simp add: take_bit_eq_mod mask_eq_exp_minus_1)

lemma grad_eval:
  "grad (Some k) x y z =
     (if even (k mod 16) then (if k mod 16 < 8 then x else y)
      else - (if k mod 16 < 8 then x else y))
     + (if even (k mod 16 div 2)
        then (if k mod 16 < 4 then y else if k mod 16 = 12 \<or> k mod 16 = 14 then x else z)
        else - (if k mod 16 < 4 then y else if k mod 16 = 12 \<or> k mod 16 = 14 then x else z))"
  by (simp add: grad_def Let_def and_15 and_2_eq_0 and_one_eq even_iff_mod_2_eq_zero)

lemmas noise_eval = noise_unfold lattice_def idx_AA_def idx_AB_def idx_BA_def idx_BB_def
  idx_A_def idx_B_def idx_plus_def perm_at_def grad_eval fade_def lerp_def table_42
  numeral_2_eq_2 [symmetric] numeral_3_eq_3 [symmetric]

lemma curl_x:
  "e \<noteq> 0 \<Longrightarrow> vec_x (curl this x y z (Some e)) =
     Some ((potential this x y (z + e) - potential this x y (z - e)) / (2 * e)
           - (potential this x (y + e) z - potential this x (y - e) z) / (2 * e))"
  by (simp add: curl_components)

lemma curl_y:
  "e \<noteq> 0 \<Longrightarrow> vec_y (curl this x y z (Some e)) =
     Some ((potential this (x + e) y z - potential this (x - e) y z) / (2 * e)
           - (potential this x y (z + e) - potential this x y (z - e)) / (2 * e))"
  by (simp add: curl_components)

lemma curl_z:
  "e \<noteq> 0 \<Longrightarrow> vec_z (curl this x y z (Some e)) =
     Some ((potential this x (y + e) z - potential this x (y - e) z) / (2 * e)
           - (potential this (x + e) y z - potential this (x - e) y z) / (2 * e))"
  by (simp add: curl_components)

lemmas divergence_eval = spec_divergence_def curl_x curl_y curl_z num_div_def js_div_def
  num_lift2_def potential_def noiseGenerators_curl_def CurlNoise_new_def noise_eval
  permutation_length

lemma divergence_frame_epsilon:
  "spec_divergence noiseGenerators_curl (1 / 100) (1 / 1000) (3 / 10) (6 / 10) (5 / 4)
     = Some (- (64704390534358063156276119 / 500000000000000000000000000))"
  by (simp add: divergence_eval)

lemma divergence_default_epsilon:
  "spec_divergence noiseGenerators_curl (1 / 10000) (1 / 100000) (3 / 10) (6 / 10) (5 / 4)
     = Some (- (113557160738993928178431489155919689121 / 7812500000000000000000000000000000000000000))"
  by (simp add: divergence_eval)

text \<open>
  C6 at the epsilon of the frame updater. The frame updater evaluates \<open>curl\<close> with the
  epsilon 0.01; for a particle of base coordinate (0.1, 0.2) at the scaled time 2.5 the
  point is (0.3, 0.6, 1.25). The divergence of that field there, estimated by symmetric
  differences of step 0.001, is about -0.1294, more than a hundred times the tolerance
  0.001. With the default epsilon 0.0001 of \<open>curl\<close> the estimate at the same point, at
  the step 0.00001, is about -0.0000145, within the tolerance.
\<close>

theorem frame_curl_divergence:
  "spec_divergence noiseGenerators_curl frame_epsilon (1 / 1000) (3 / 10) (6 / 10) (5 / 4)
     = Some (- (64704390534358063156276119 / 500000000000000000000000000))
   \<and> (- (64704390534358063156276119 / 500000000000000000000000000)) < - (129 / 1000 :: real)
   \<and> spec_divergence noiseGenerators_curl curl_default_epsilon (1 / 100000) (3 / 10) (6 / 10) (5 / 4)
     = Some (- (113557160738993928178431489155919689121 / 7812500000000000000000000000000000000000000))
   \<and> \<bar>- (113557160738993928178431489155919689121 / 7812500000000000000000000000000000000000000)\<bar> < (1 / 1000 :: real)"
  using divergence_frame_epsilon divergence_default_epsilon
  by (simp add: frame_epsilon_def curl_default_epsilon_def)


end
